theory Spec2Isabelle
  imports Main "HOL-Library.Word"
begin

unbundle bit_operations_syntax

section \<open>Constants of the collaborating headers\<close>

text \<open>
  Modelled from the spec: \<open>status_t\<close> and its codes are declared in \<open>utils/Errors.h\<close>,
  which is not among the sources. The spec (section 7) names the outcomes WouldBlock,
  PeerClosed/Dead and other faults; the source names \<open>OK\<close>, \<open>WOULD_BLOCK\<close>,
  \<open>NO_MEMORY\<close> and \<open>DEAD_OBJECT\<close>. A status is an integer, \<open>OK\<close> is zero (the source
  tests \<open>if (status)\<close>) and the three error codes are distinct negative errno values.
\<close>

type_synonym status_t = int

definition OK :: status_t where "OK = 0"
definition WOULD_BLOCK :: status_t where "WOULD_BLOCK = - 11"
definition NO_MEMORY :: status_t where "NO_MEMORY = - 12"
definition DEAD_OBJECT :: status_t where "DEAD_OBJECT = - 32"

text \<open>
  Modelled from the spec: the readiness bits of \<open>utils/Looper.h\<close>, which is not among the
  sources. The spec (section 4.3) distinguishes read-readiness, write-readiness and
  error/hangup; each is one bit of the event mask.
\<close>

definition ALOOPER_EVENT_INPUT :: int where "ALOOPER_EVENT_INPUT = 1"
definition ALOOPER_EVENT_OUTPUT :: int where "ALOOPER_EVENT_OUTPUT = 2"
definition ALOOPER_EVENT_ERROR :: int where "ALOOPER_EVENT_ERROR = 4"
definition ALOOPER_EVENT_HANGUP :: int where "ALOOPER_EVENT_HANGUP = 8"

text \<open>
  Modelled from the spec: \<open>AMOTION_EVENT_ACTION_MOVE\<close> of \<open>android/input.h\<close>, which is
  not among the sources; it only decides the \<open>outConsumedBatch\<close> result.
\<close>

definition AMOTION_EVENT_ACTION_MOVE :: int where "AMOTION_EVENT_ACTION_MOVE = 2"

section \<open>Data\<close>

text \<open>\<open>struct Finish { uint32_t seq; bool handled; }\<close>\<close>

record Finish =
  seq :: "32 word"
  handled :: bool

text \<open>
  The decoded event, by \<open>getType()\<close>. \<open>OtherEvent\<close> is any type tag that the \<open>switch\<close>
  sends to its \<open>default\<close> branch.
\<close>

datatype InputEvent =
    KeyEvent
  | MotionEvent (getAction: int)
  | FocusEvent (getHasFocus: bool) (getInTouchMode: bool)
  | OtherEvent int

text \<open>
  What one call of \<open>mInputConsumer.consume\<close> hands back: the status and the out
  parameters \<open>seq\<close>, \<open>inputEvent\<close>, \<open>motionEventType\<close>, \<open>touchMoveNum\<close>, \<open>flag\<close>.
\<close>

record consume_out =
  c_status :: status_t
  c_seq :: "32 word"
  c_event :: InputEvent
  c_motionEventType :: int
  c_touchMoveNum :: int
  c_flag :: bool

text \<open>The calls made into the managed receiver object.\<close>

datatype java_call =
    DispatchInputEvent "32 word" InputEvent
  | DispatchMotionEventInfo int int
  | OnFocusEvent bool bool
  | OnBatchedInputEventPending int

text \<open>
  The \<open>addFd\<close> and \<open>removeFd\<close> calls the looper of the message queue receives for the
  descriptor of the channel: those of \<open>setFdEvents\<close>, and the looper's own \<open>removeFd\<close>
  after a callback told it to remove the callback (see \<open>deliverReadiness\<close>).
\<close>

datatype looper_call = AddFd int | RemoveFd

text \<open>
  The receiver's member variables, followed by its collaborators. The transport
  (\<open>mInputConsumer\<close>), the looper and the Java side are not part of the source file; they
  are modelled by what they answer and by a log of what they were asked:
  \<^item> \<open>consumeResults k\<close> is the answer to the \<open>k\<close>-th call of \<open>consume\<close>,
    \<open>sendResults k\<close> the status of the \<open>k\<close>-th call of \<open>sendFinishedSignal\<close>;
    \<open>sentSignals\<close> lists the finished signals the transport accepted (status \<open>OK\<close>),
    in the order it received them;
  \<^item> \<open>referent\<close> says whether the weak reference still resolves to a receiver object,
    \<open>callThrows k\<close> whether the \<open>k\<close>-th Java call leaves an exception pending,
    \<open>obtainFails k\<close> whether the \<open>k\<close>-th conversion of an event to a Java object
    yields null.
  Java calls are modelled as not calling back into the receiver.
\<close>

record receiver =
  mBatchedInputEventPending :: bool
  mFdEvents :: int
  mFinishQueue :: "Finish list"
  mLastMotionEventType :: int
  mLastTouchMoveNum :: int
  consumeResults :: "nat \<Rightarrow> consume_out"
  consumeCalls :: nat
  hasPendingBatch :: bool
  getPendingBatchSource :: int
  sendResults :: "nat \<Rightarrow> status_t"
  sendCalls :: nat
  sentSignals :: "Finish list"
  looperCalls :: "looper_call list"
  referent :: bool
  javaCalls :: "java_call list"
  callThrows :: "nat \<Rightarrow> bool"
  exceptionPending :: bool
  obtainFails :: "nat \<Rightarrow> bool"
  obtainCalls :: nat
  raisedExceptions :: "string list"

text \<open>The local variables of \<open>consumeEvents\<close> that live across loop iterations.\<close>

record locals =
  receiverObj :: bool
  skipCallbacks :: bool
  outConsumedBatch :: "bool option"

section \<open>Collaborators\<close>

definition sendFinishedSignal :: "32 word \<Rightarrow> bool \<Rightarrow> receiver \<Rightarrow> status_t \<times> receiver" where
  "sendFinishedSignal sq h s =
     (let status = sendResults s (sendCalls s) in
      (status,
       s\<lparr>sendCalls := sendCalls s + 1,
         sentSignals := sentSignals s @
           (if status = OK then [\<lparr>seq = sq, handled = h\<rparr>] else [])\<rparr>))"

definition consume :: "receiver \<Rightarrow> consume_out \<times> receiver" where
  "consume s = (consumeResults s (consumeCalls s), s\<lparr>consumeCalls := consumeCalls s + 1\<rparr>)"

definition CallVoidMethod :: "java_call \<Rightarrow> receiver \<Rightarrow> receiver" where
  "CallVoidMethod c s =
     s\<lparr>javaCalls := javaCalls s @ [c],
       exceptionPending := (exceptionPending s \<or> callThrows s (length (javaCalls s)))\<rparr>"

text \<open>
  \<open>android_view_KeyEvent_fromNative\<close> and \<open>android_view_MotionEvent_obtainAsCopy\<close>:
  the result says whether a Java object was obtained.
\<close>

definition obtainEventObj :: "receiver \<Rightarrow> bool \<times> receiver" where
  "obtainEventObj s =
     (\<not> obtainFails s (obtainCalls s), s\<lparr>obtainCalls := obtainCalls s + 1\<rparr>)"

definition jniThrowRuntimeException :: "receiver \<Rightarrow> receiver" where
  "jniThrowRuntimeException s = s\<lparr>exceptionPending := True\<rparr>"

definition raiseAndClearException :: "string \<Rightarrow> receiver \<Rightarrow> receiver" where
  "raiseAndClearException msg s =
     (if exceptionPending s
      then s\<lparr>exceptionPending := False, raisedExceptions := raisedExceptions s @ [msg]\<rparr>
      else s)"

section \<open>The receiver\<close>

definition setFdEvents :: "int \<Rightarrow> receiver \<Rightarrow> receiver" where
  "setFdEvents events s =
     (if mFdEvents s \<noteq> events then
        (let s1 = s\<lparr>mFdEvents := events\<rparr> in
         if events \<noteq> 0 then s1\<lparr>looperCalls := looperCalls s1 @ [AddFd events]\<rparr>
         else s1\<lparr>looperCalls := looperCalls s1 @ [RemoveFd]\<rparr>)
      else s)"

definition initialize :: "receiver \<Rightarrow> status_t \<times> receiver" where
  "initialize s = (OK, setFdEvents ALOOPER_EVENT_INPUT s)"

definition dispose :: "receiver \<Rightarrow> receiver" where
  "dispose s = setFdEvents 0 s"

definition finishInputEvent :: "32 word \<Rightarrow> bool \<Rightarrow> receiver \<Rightarrow> status_t \<times> receiver" where
  "finishInputEvent sq h s =
     (let (status, s1) = sendFinishedSignal sq h s in
      if status \<noteq> 0 then
        (if status = WOULD_BLOCK then
           (let s2 = s1\<lparr>mFinishQueue := mFinishQueue s1 @ [\<lparr>seq = sq, handled = h\<rparr>]\<rparr>;
                s3 = (if length (mFinishQueue s2) = 1
                      then setFdEvents (ALOOPER_EVENT_INPUT OR ALOOPER_EVENT_OUTPUT) s2
                      else s2)
            in (OK, s3))
         else (status, s1))
      else (status, s1))"

text \<open>
  Lines 263 to 270 of \<open>consumeEvents\<close>: the motion-info notification and the update of
  the remembered signature.
\<close>

definition notifyMotionEventInfo :: "consume_out \<Rightarrow> receiver \<Rightarrow> receiver" where
  "notifyMotionEventInfo r s =
     (if c_flag r \<and> (mLastMotionEventType s \<noteq> c_motionEventType r \<or>
                      mLastTouchMoveNum s \<noteq> c_touchMoveNum r)
      then (CallVoidMethod (DispatchMotionEventInfo (c_motionEventType r) (c_touchMoveNum r)) s)
             \<lparr>mLastMotionEventType := c_motionEventType r,
              mLastTouchMoveNum := c_touchMoveNum r\<rparr>
      else s)"

text \<open>Lines 278 to 306: the transport has no more data.\<close>

definition onWouldBlock :: "locals \<Rightarrow> receiver \<Rightarrow> status_t \<times> locals \<times> receiver" where
  "onWouldBlock l s =
     (if \<not> skipCallbacks l \<and> \<not> mBatchedInputEventPending s \<and> hasPendingBatch s then
        (if \<not> receiverObj l \<and> \<not> referent s then (DEAD_OBJECT, l, s)
         else
           (let l1 = l\<lparr>receiverObj := True\<rparr>;
                s1 = s\<lparr>mBatchedInputEventPending := True\<rparr>;
                s2 = CallVoidMethod (OnBatchedInputEventPending (getPendingBatchSource s1)) s1;
                s3 = (if exceptionPending s2 then s2\<lparr>mBatchedInputEventPending := False\<rparr>
                      else s2)
            in (OK, l1, s3)))
      else (OK, l, s))"

text \<open>
  Lines 359 to 374: the event object is handed to \<open>dispatchInputEvent\<close>, or was not
  obtained.
\<close>

definition dispatchObj :: "bool \<Rightarrow> 32 word \<Rightarrow> InputEvent \<Rightarrow> locals \<Rightarrow> receiver \<Rightarrow> locals \<times> receiver" where
  "dispatchObj inputEventObj sq ev l s =
     (if inputEventObj then
        (let s1 = CallVoidMethod (DispatchInputEvent sq ev) s in
         if exceptionPending s1 then (l\<lparr>skipCallbacks := True\<rparr>, s1) else (l, s1))
      else (l\<lparr>skipCallbacks := True\<rparr>, s))"

text \<open>Lines 377 to 379, the end of the loop body.\<close>

definition finishSkipped :: "32 word \<Rightarrow> locals \<Rightarrow> receiver \<Rightarrow> receiver" where
  "finishSkipped sq l s =
     (if skipCallbacks l then snd (sendFinishedSignal sq False s) else s)"

text \<open>
  Lines 309 to 379: a decoded event. \<open>Inl\<close> is a \<open>return\<close> from \<open>consumeEvents\<close>,
  \<open>Inr\<close> the next loop iteration.
\<close>

definition onEvent ::
  "consume_out \<Rightarrow> locals \<Rightarrow> receiver \<Rightarrow> (status_t \<times> locals \<times> receiver) + (locals \<times> receiver)" where
  "onEvent r l s =
     (if \<not> skipCallbacks l then
        (if \<not> receiverObj l \<and> \<not> referent s then Inl (DEAD_OBJECT, l, s)
         else
           (let l1 = l\<lparr>receiverObj := True\<rparr> in
            case c_event r of
              KeyEvent \<Rightarrow>
                (let (obj, s1) = obtainEventObj s;
                     (l2, s2) = dispatchObj obj (c_seq r) (c_event r) l1 s1
                 in Inr (l2, finishSkipped (c_seq r) l2 s2))
            | MotionEvent action \<Rightarrow>
                (let l2 = (if action AND AMOTION_EVENT_ACTION_MOVE \<noteq> 0 \<and> outConsumedBatch l1 \<noteq> None
                           then l1\<lparr>outConsumedBatch := Some True\<rparr> else l1);
                     (obj, s1) = obtainEventObj s;
                     (l3, s2) = dispatchObj obj (c_seq r) (c_event r) l2 s1
                 in Inr (l3, finishSkipped (c_seq r) l3 s2))
            | FocusEvent hasFocus inTouchMode \<Rightarrow>
                (let s1 = CallVoidMethod (OnFocusEvent hasFocus inTouchMode) s;
                     (st, s2) = finishInputEvent (c_seq r) True s1
                 in Inl (OK, l1, s2))
            | OtherEvent t \<Rightarrow>
                (let (l2, s2) = dispatchObj False (c_seq r) (c_event r) l1 s
                 in Inr (l2, finishSkipped (c_seq r) l2 s2))))
      else Inr (l, finishSkipped (c_seq r) l s))"

text \<open>One iteration of the \<open>for (;;)\<close> loop, lines 243 to 379.\<close>

definition consumeEvents_body ::
  "locals \<Rightarrow> receiver \<Rightarrow> (status_t \<times> locals \<times> receiver) + (locals \<times> receiver)" where
  "consumeEvents_body l s0 =
     (let (r, s1) = consume s0 in
      if \<not> receiverObj l \<and> \<not> referent s1 then Inl (DEAD_OBJECT, l, s1)
      else
        (let l1 = l\<lparr>receiverObj := True\<rparr>;
             s2 = notifyMotionEventInfo r s1
         in if c_status r \<noteq> OK \<and> c_status r \<noteq> WOULD_BLOCK then Inl (c_status r, l1, s2)
            else if c_status r = WOULD_BLOCK then Inl (onWouldBlock l1 s2)
            else onEvent r l1 s2))"

text \<open>
  The loop has no bound of its own: it runs until the transport answers something other
  than an event that is passed on. A run that never returns is \<open>None\<close>.
\<close>

partial_function (option) consumeEvents_loop ::
  "locals \<Rightarrow> receiver \<Rightarrow> (status_t \<times> locals \<times> receiver) option" where
  "consumeEvents_loop l s =
     (case consumeEvents_body l s of
        Inl res \<Rightarrow> Some res
      | Inr (l', s') \<Rightarrow> consumeEvents_loop l' s')"

text \<open>
  \<open>consumeEvents(env, consumeBatches, frameTime, outConsumedBatch)\<close>. The flag
  \<open>wantConsumedBatch\<close> says that the pointer \<open>outConsumedBatch\<close> is not null; the value
  written through it is returned with the status. \<open>consumeBatches\<close> and \<open>frameTime\<close>
  are also arguments of the transport's \<open>consume\<close>, whose answers are given by
  \<open>consumeResults\<close>.
\<close>

definition consumeEvents ::
  "bool \<Rightarrow> int \<Rightarrow> bool \<Rightarrow> receiver \<Rightarrow> (status_t \<times> bool option \<times> receiver) option" where
  "consumeEvents consumeBatches frameTime wantConsumedBatch s =
     (let s1 = (if consumeBatches then s\<lparr>mBatchedInputEventPending := False\<rparr> else s);
          l = \<lparr>receiverObj = False, skipCallbacks = False,
               outConsumedBatch = (if wantConsumedBatch then Some False else None)\<rparr>
      in case consumeEvents_loop l s1 of
           None \<Rightarrow> None
         | Some (status, l', s') \<Rightarrow> Some (status, outConsumedBatch l', s'))"

text \<open>
  Lines 186 to 211 of \<open>handleEvent\<close>: the loop over the queued finish records, from
  index \<open>i\<close>. \<open>Some c\<close> is a \<open>return c\<close> from inside the loop, \<open>None\<close> the loop running
  to its end.
\<close>

function sendQueued :: "nat \<Rightarrow> receiver \<Rightarrow> int option \<times> receiver" where
  "sendQueued i s =
     (if i < length (mFinishQueue s) then
        (let finish = mFinishQueue s ! i;
             status = fst (sendFinishedSignal (seq finish) (handled finish) s);
             s1 = snd (sendFinishedSignal (seq finish) (handled finish) s)
         in if status \<noteq> 0 then
              (let s2 = s1\<lparr>mFinishQueue := drop i (mFinishQueue s1)\<rparr> in
               if status = WOULD_BLOCK then (Some 1, s2)
               else if status \<noteq> DEAD_OBJECT
                 then (Some 0, raiseAndClearException ''finishInputEvent''
                                 (jniThrowRuntimeException s2))
                 else (Some 0, s2))
            else sendQueued (i + 1) s1)
      else (None, s))"
  by pat_completeness auto
termination
  by (relation "measure (\<lambda>(i, s). length (mFinishQueue s) - i)")
     (auto simp: sendFinishedSignal_def Let_def)

declare sendQueued.simps [simp del]

text \<open>
  \<open>handleEvent(receiveFd, events, data)\<close>: the result is 1 to keep the callback and 0
  to have the looper remove it.
\<close>

definition handleEvent :: "int \<Rightarrow> receiver \<Rightarrow> (int \<times> receiver) option" where
  "handleEvent events s =
     (if events AND (ALOOPER_EVENT_ERROR OR ALOOPER_EVENT_HANGUP) \<noteq> 0 then Some (0, s)
      else if events AND ALOOPER_EVENT_INPUT \<noteq> 0 then
        (case consumeEvents False (- 1) False s of
           None \<Rightarrow> None
         | Some (status, ocb, s1) \<Rightarrow>
             Some (if status = OK \<or> status = NO_MEMORY then 1 else 0,
                   raiseAndClearException ''handleReceiveCallback'' s1))
      else if events AND ALOOPER_EVENT_OUTPUT \<noteq> 0 then
        (case sendQueued 0 s of
           (Some c, s1) \<Rightarrow> Some (c, s1)
         | (None, s1) \<Rightarrow> Some (1, setFdEvents ALOOPER_EVENT_INPUT (s1\<lparr>mFinishQueue := []\<rparr>)))
      else Some (1, s))"

text \<open>
  Modelled from the spec: the dispatch loop delivering a readiness notification to the
  registered callback. The looper is not among the sources. By the spec (section 6) the
  callback "receives (descriptor, eventMask) and returns a continue/stop signal", and a
  stop removes the loop registration (section 4.3: "removes the loop registration",
  "unconditionally deregister"); the source says the same at its returns ("remove the
  callback" for 0, "keep the callback" for 1). The removal is the looper's own
  \<open>removeFd\<close> of the descriptor; it does not touch \<open>mFdEvents\<close>.
\<close>

definition deliverReadiness :: "int \<Rightarrow> receiver \<Rightarrow> (int \<times> receiver) option" where
  "deliverReadiness events s =
     (case handleEvent events s of
        None \<Rightarrow> None
      | Some (c, s') \<Rightarrow>
          Some (c, if c = 0 then s'\<lparr>looperCalls := looperCalls s' @ [RemoveFd]\<rparr> else s'))"

section \<open>Construction and observation\<close>

text \<open>
  A collaborator's answers are given as a finite script followed by a default: the
  \<open>k\<close>-th answer is the \<open>k\<close>-th entry of the list while there is one.
\<close>

definition script :: "'a \<Rightarrow> 'a list \<Rightarrow> nat \<Rightarrow> 'a" where
  "script d xs k = (if k < length xs then xs ! k else d)"

text \<open>
  The transport has nothing to read: \<open>consume\<close> answers \<open>WOULD_BLOCK\<close> and leaves the
  out parameters as \<open>consumeEvents\<close> initialised them (lines 244 to 246).
\<close>

definition noData :: consume_out where
  "noData = \<lparr>c_status = WOULD_BLOCK, c_seq = 0, c_event = OtherEvent 0,
     c_motionEventType = - 1, c_touchMoveNum = - 1, c_flag = False\<rparr>"

text \<open>A decoded event without motion information, and one with it.\<close>

definition decoded :: "32 word \<Rightarrow> InputEvent \<Rightarrow> consume_out" where
  "decoded sq ev = \<lparr>c_status = OK, c_seq = sq, c_event = ev,
     c_motionEventType = - 1, c_touchMoveNum = - 1, c_flag = False\<rparr>"

definition withMotionInfo :: "int \<Rightarrow> int \<Rightarrow> bool \<Rightarrow> consume_out \<Rightarrow> consume_out" where
  "withMotionInfo t n fl r = r\<lparr>c_motionEventType := t, c_touchMoveNum := n, c_flag := fl\<rparr>"

text \<open>
  The constructor (lines 98 to 107 and the member initialisers of lines 85 and 86), given
  the scripts of the transport's \<open>consume\<close> answers, whether the transport holds a
  pending batch, the script of its \<open>sendFinishedSignal\<close> answers, whether the weak
  reference resolves, and the script of which Java calls throw.
\<close>

definition NativeInputEventReceiver ::
  "consume_out list \<Rightarrow> bool \<Rightarrow> status_t list \<Rightarrow> bool \<Rightarrow> bool list \<Rightarrow> receiver" where
  "NativeInputEventReceiver cs pb ss rf ts =
     \<lparr>mBatchedInputEventPending = False, mFdEvents = 0, mFinishQueue = [],
      mLastMotionEventType = - 1, mLastTouchMoveNum = - 1,
      consumeResults = script noData cs, consumeCalls = 0,
      hasPendingBatch = pb, getPendingBatchSource = 0,
      sendResults = script OK ss, sendCalls = 0, sentSignals = [],
      looperCalls = [], referent = rf, javaCalls = [],
      callThrows = script False ts, exceptionPending = False,
      obtainFails = (\<lambda>k. False), obtainCalls = 0, raisedExceptions = []\<rparr>"

text \<open>The state in which an iteration of the loop of \<open>consumeEvents\<close> ends.\<close>

definition stateAfter :: "(status_t \<times> locals \<times> receiver) + (locals \<times> receiver) \<Rightarrow> receiver" where
  "stateAfter x = (case x of Inl (st, l, s) \<Rightarrow> s | Inr (l, s) \<Rightarrow> s)"

definition isMotionEventInfo :: "java_call \<Rightarrow> bool" where
  "isMotionEventInfo c = (case c of DispatchMotionEventInfo t n \<Rightarrow> True | _ \<Rightarrow> False)"

definition isBatchPending :: "java_call \<Rightarrow> bool" where
  "isBatchPending c = (case c of OnBatchedInputEventPending src \<Rightarrow> True | _ \<Rightarrow> False)"

definition isDispatchInputEvent :: "java_call \<Rightarrow> bool" where
  "isDispatchInputEvent c = (case c of DispatchInputEvent sq ev \<Rightarrow> True | _ \<Rightarrow> False)"

definition isFocusCall :: "java_call \<Rightarrow> bool" where
  "isFocusCall c = (case c of OnFocusEvent hf tm \<Rightarrow> True | _ \<Rightarrow> False)"

text \<open>
  The interest registered with the looper for the descriptor after the \<open>addFd\<close> and
  \<open>removeFd\<close> calls it received, the looper's own removal included: \<open>addFd\<close> on a
  registered descriptor replaces its event mask, \<open>removeFd\<close> drops the registration.
\<close>

definition registeredInterest :: "looper_call list \<Rightarrow> int" where
  "registeredInterest cs =
     (if cs = [] then 0 else (case last cs of AddFd e \<Rightarrow> e | RemoveFd \<Rightarrow> 0))"

text \<open>
  The queue invariant of the spec's data model: the queue is non-empty exactly when the
  interest registered with the looper includes write-readiness; and \<open>mFdEvents\<close>, the
  receiver's record of its interest, agrees with what is registered.
\<close>

definition queueInterestInv :: "receiver \<Rightarrow> bool" where
  "queueInterestInv s =
     (mFdEvents s = registeredInterest (looperCalls s) \<and>
      ((mFinishQueue s \<noteq> []) = (registeredInterest (looperCalls s) AND ALOOPER_EVENT_OUTPUT \<noteq> 0)))"

section \<open>Scenarios\<close>

text \<open>An initialised receiver whose transport refuses the first finished signal.\<close>

definition bufferFull :: receiver where
  "bufferFull = snd (initialize (NativeInputEventReceiver [] False [WOULD_BLOCK] True []))"

text \<open>The finished signal of event 5 was queued; the transport accepts from then on.\<close>

definition oneQueued :: receiver where
  "oneQueued = snd (finishInputEvent 5 True bufferFull)"

text \<open>
  Three finished signals were queued; the transport will accept one more signal and
  then refuse again.
\<close>

definition threeQueued :: receiver where
  "threeQueued =
     snd (finishInputEvent 7 False (snd (finishInputEvent 6 True (snd (finishInputEvent 5 True
       (snd (initialize (NativeInputEventReceiver [] False
          [WOULD_BLOCK, WOULD_BLOCK, WOULD_BLOCK, OK, WOULD_BLOCK] True []))))))))"

text \<open>
  The handler throws on the key event 7, and the transport refuses the finished signal
  that follows.
\<close>

definition handlerFailsBufferFull :: receiver where
  "handlerFailsBufferFull =
     snd (initialize (NativeInputEventReceiver [decoded 7 KeyEvent] False [WOULD_BLOCK] True [True]))"


text \<open>The receiver object was finalized; the transport is out of memory.\<close>

definition deadReceiver :: receiver where
  "deadReceiver = snd (initialize (NativeInputEventReceiver [] False [] False []))"

definition outOfMemory :: receiver where
  "outOfMemory =
     snd (initialize (NativeInputEventReceiver [noData\<lparr>c_status := NO_MEMORY\<rparr>] False [] True []))"

text \<open>
  Four motion events, each flagged by the transport, with the motion signatures
  (1,0), (1,0), (1,1), (2,0).
\<close>

definition fourMotions :: receiver where
  "fourMotions = snd (initialize (NativeInputEventReceiver
     [withMotionInfo 1 0 True (decoded 1 (MotionEvent 0)),
      withMotionInfo 1 0 True (decoded 2 (MotionEvent 2)),
      withMotionInfo 1 1 True (decoded 3 (MotionEvent 2)),
      withMotionInfo 2 0 True (decoded 4 (MotionEvent 1))] False [] True []))"

text \<open>
  A flagged motion event with signature (1,0), then a key event for which the transport
  leaves the flag and the signature out parameters as they were initialised.
\<close>

definition motionThenKey :: receiver where
  "motionThenKey = snd (initialize (NativeInputEventReceiver
     [withMotionInfo 1 0 True (decoded 1 (MotionEvent 0)), decoded 2 KeyEvent] False [] True []))"

text \<open>
  The handler throws on key event 1 while the transport holds a pending batch; and a
  receiver whose transport has only a pending batch, the batch callback throwing.
\<close>

definition skipThenBatch :: receiver where
  "skipThenBatch =
     snd (initialize (NativeInputEventReceiver [decoded 1 KeyEvent] True [] True [True]))"

definition batchWaiting :: receiver where
  "batchWaiting = snd (initialize (NativeInputEventReceiver [] True [] True [True]))"

text \<open>
  The handler throws on key event 1 and a focus event follows; and a receiver whose
  transport delivers one focus event.
\<close>

definition skipThenFocus :: receiver where
  "skipThenFocus = snd (initialize (NativeInputEventReceiver
     [decoded 1 KeyEvent, decoded 2 (FocusEvent True False)] False [] True [True]))"

definition focusArrives :: receiver where
  "focusArrives = snd (initialize (NativeInputEventReceiver
     [decoded 9 (FocusEvent True False)] False [] True []))"

section \<open>Facts about the collaborators\<close>

lemmas status_defs = OK_def WOULD_BLOCK_def NO_MEMORY_def DEAD_OBJECT_def

lemmas looper_defs = ALOOPER_EVENT_INPUT_def ALOOPER_EVENT_OUTPUT_def
  ALOOPER_EVENT_ERROR_def ALOOPER_EVENT_HANGUP_def

lemmas scenario_defs = NativeInputEventReceiver_def script_def noData_def decoded_def
  withMotionInfo_def

lemma sendFinishedSignal_fst: "fst (sendFinishedSignal sq h s) = sendResults s (sendCalls s)"
  by (simp add: sendFinishedSignal_def Let_def)

lemma sendFinishedSignal_snd:
  "snd (sendFinishedSignal sq h s) =
     s\<lparr>sendCalls := sendCalls s + 1,
       sentSignals := sentSignals s @
         (if sendResults s (sendCalls s) = OK then [\<lparr>seq = sq, handled = h\<rparr>] else [])\<rparr>"
  by (simp add: sendFinishedSignal_def Let_def)

lemmas run_defs = consumeEvents_def consumeEvents_loop.simps consumeEvents_body_def
  consume_def notifyMotionEventInfo_def onEvent_def onWouldBlock_def obtainEventObj_def
  dispatchObj_def CallVoidMethod_def finishSkipped_def sendFinishedSignal_def
  finishInputEvent_def setFdEvents_def initialize_def dispose_def handleEvent_def
  sendQueued.simps raiseAndClearException_def jniThrowRuntimeException_def Let_def

lemma bufferFull_simps:
  "mFinishQueue bufferFull = []" "mFdEvents bufferFull = 1" "sendCalls bufferFull = 0"
  "sendResults bufferFull 0 = WOULD_BLOCK" "looperCalls bufferFull = [AddFd 1]"
  "sentSignals bufferFull = []"
  by (simp_all add: bufferFull_def run_defs scenario_defs status_defs looper_defs)

lemma oneQueued_simps:
  "mFinishQueue oneQueued = [\<lparr>seq = 5, handled = True\<rparr>]" "mFdEvents oneQueued = 3"
  "sendCalls oneQueued = 1"
  "sendResults oneQueued = script OK [WOULD_BLOCK]" "looperCalls oneQueued = [AddFd 1, AddFd 3]"
  "sentSignals oneQueued = []"
  by (simp_all add: oneQueued_def bufferFull_def run_defs scenario_defs status_defs looper_defs)

lemma threeQueued_simps:
  "mFinishQueue threeQueued =
     [\<lparr>seq = 5, handled = True\<rparr>, \<lparr>seq = 6, handled = True\<rparr>, \<lparr>seq = 7, handled = False\<rparr>]"
  "mFdEvents threeQueued = 3" "sendCalls threeQueued = 3"
  "sendResults threeQueued = script OK [WOULD_BLOCK, WOULD_BLOCK, WOULD_BLOCK, OK, WOULD_BLOCK]"
  "looperCalls threeQueued = [AddFd 1, AddFd 3]"
  "sentSignals threeQueued = []"
  by (simp_all add: threeQueued_def run_defs scenario_defs status_defs looper_defs)

section \<open>The flush loop\<close>

lemma sendQueued_would_block:
  "i + n < length (mFinishQueue s) \<Longrightarrow>
   \<forall>m<n. sendResults s (sendCalls s + m) = OK \<Longrightarrow>
   sendResults s (sendCalls s + n) = WOULD_BLOCK \<Longrightarrow>
   \<exists>s'. sendQueued i s = (Some 1, s')
      \<and> mFinishQueue s' = drop (i + n) (mFinishQueue s)
      \<and> sentSignals s' = sentSignals s @ take n (drop i (mFinishQueue s))
      \<and> mFdEvents s' = mFdEvents s \<and> looperCalls s' = looperCalls s"
proof (induction n arbitrary: i s)
  case 0
  then show ?case
    by (subst sendQueued.simps)
       (simp add: sendFinishedSignal_fst sendFinishedSignal_snd Let_def status_defs)
next
  case (Suc n)
  let ?s1 = "snd (sendFinishedSignal (seq (mFinishQueue s ! i)) (handled (mFinishQueue s ! i)) s)"
  have ok: "sendResults s (sendCalls s) = OK"
    using Suc.prems(2) by (metis add.right_neutral zero_less_Suc)
  have step: "sendQueued i s = sendQueued (i + 1) ?s1"
    using Suc.prems(1) ok
    by (subst sendQueued.simps) (simp add: sendFinishedSignal_fst Let_def status_defs)
  have q1: "mFinishQueue ?s1 = mFinishQueue s"
    by (simp add: sendFinishedSignal_snd)
  have "(i + 1) + n < length (mFinishQueue ?s1)"
    using Suc.prems(1) q1 by simp
  moreover have "\<forall>m<n. sendResults ?s1 (sendCalls ?s1 + m) = OK"
  proof (intro allI impI)
    fix m assume "m < n"
    then have "sendResults s (sendCalls s + Suc m) = OK"
      using Suc.prems(2) by (meson Suc_mono)
    then show "sendResults ?s1 (sendCalls ?s1 + m) = OK"
      by (simp add: sendFinishedSignal_snd)
  qed
  moreover have "sendResults ?s1 (sendCalls ?s1 + n) = WOULD_BLOCK"
    using Suc.prems(3) by (simp add: sendFinishedSignal_snd)
  ultimately obtain s' where s':
    "sendQueued (i + 1) ?s1 = (Some 1, s')"
    "mFinishQueue s' = drop ((i + 1) + n) (mFinishQueue ?s1)"
    "sentSignals s' = sentSignals ?s1 @ take n (drop (i + 1) (mFinishQueue ?s1))"
    "mFdEvents s' = mFdEvents ?s1" "looperCalls s' = looperCalls ?s1"
    using Suc.IH [where i = "i + 1" and s = ?s1] by blast
  have lt: "i < length (mFinishQueue s)"
    using Suc.prems(1) by simp
  have "sentSignals ?s1 = sentSignals s @ [mFinishQueue s ! i]"
    using ok by (simp add: sendFinishedSignal_snd)
  then have "sentSignals s' = sentSignals s @ take (Suc n) (drop i (mFinishQueue s))"
    using s'(3) q1 lt by (simp add: Cons_nth_drop_Suc [symmetric])
  then show ?case
    using step s' q1 by (simp add: sendFinishedSignal_snd)
qed

lemma sendQueued_all_sent:
  "length (mFinishQueue s) - i = n \<Longrightarrow>
   \<forall>m<n. sendResults s (sendCalls s + m) = OK \<Longrightarrow>
   \<exists>s'. sendQueued i s = (None, s')
      \<and> mFinishQueue s' = mFinishQueue s
      \<and> sentSignals s' = sentSignals s @ drop i (mFinishQueue s)
      \<and> mFdEvents s' = mFdEvents s \<and> looperCalls s' = looperCalls s"
proof (induction n arbitrary: i s)
  case 0
  then show ?case
    by (subst sendQueued.simps) simp
next
  case (Suc n)
  let ?s1 = "snd (sendFinishedSignal (seq (mFinishQueue s ! i)) (handled (mFinishQueue s ! i)) s)"
  have lt: "i < length (mFinishQueue s)"
    using Suc.prems(1) by simp
  have ok: "sendResults s (sendCalls s) = OK"
    using Suc.prems(2) by (metis add.right_neutral zero_less_Suc)
  have step: "sendQueued i s = sendQueued (i + 1) ?s1"
    using lt ok
    by (subst sendQueued.simps) (simp add: sendFinishedSignal_fst Let_def status_defs)
  have q1: "mFinishQueue ?s1 = mFinishQueue s"
    by (simp add: sendFinishedSignal_snd)
  have "length (mFinishQueue ?s1) - (i + 1) = n"
    using Suc.prems(1) q1 by simp
  moreover have "\<forall>m<n. sendResults ?s1 (sendCalls ?s1 + m) = OK"
  proof (intro allI impI)
    fix m assume "m < n"
    then have "sendResults s (sendCalls s + Suc m) = OK"
      using Suc.prems(2) by (meson Suc_mono)
    then show "sendResults ?s1 (sendCalls ?s1 + m) = OK"
      by (simp add: sendFinishedSignal_snd)
  qed
  ultimately obtain s' where s':
    "sendQueued (i + 1) ?s1 = (None, s')"
    "mFinishQueue s' = mFinishQueue ?s1"
    "sentSignals s' = sentSignals ?s1 @ drop (i + 1) (mFinishQueue ?s1)"
    "mFdEvents s' = mFdEvents ?s1" "looperCalls s' = looperCalls ?s1"
    using Suc.IH [where i = "i + 1" and s = ?s1] by blast
  have "sentSignals ?s1 = sentSignals s @ [mFinishQueue s ! i]"
    using ok by (simp add: sendFinishedSignal_snd)
  then have "sentSignals s' = sentSignals s @ drop i (mFinishQueue s)"
    using s'(3) q1 lt by (simp add: Cons_nth_drop_Suc [symmetric])
  then show ?case
    using step s' q1 by (simp add: sendFinishedSignal_snd)
qed

section \<open>Acknowledging an event: \<open>finishInputEvent\<close>\<close>

text \<open>
  Claim C4. \<open>finishInputEvent(seq, handled)\<close> makes exactly one direct attempt to send.
  When the transport accepts, the signal is sent and nothing else changes. When the
  transport answers \<open>WOULD_BLOCK\<close>, the record \<open>{seq, handled}\<close> is appended to the
  queue, write-readiness is requested (through \<open>setFdEvents\<close>) only if the queue was
  empty before, and the caller gets \<open>OK\<close>. Any other status is returned unmodified, with
  the queue and the registered interest untouched.
\<close>

theorem finishInputEvent_enqueue_or_send:
  assumes "finishInputEvent sq h s = (ret, s')"
    and "status = sendResults s (sendCalls s)"
    and "f = \<lparr>seq = sq, handled = h\<rparr>"
  shows "sendCalls s' = sendCalls s + 1
    \<and> (status = OK \<longrightarrow> ret = OK \<and> sentSignals s' = sentSignals s @ [f]
          \<and> mFinishQueue s' = mFinishQueue s \<and> mFdEvents s' = mFdEvents s
          \<and> looperCalls s' = looperCalls s)
    \<and> (status = WOULD_BLOCK \<longrightarrow> ret = OK \<and> sentSignals s' = sentSignals s
          \<and> mFinishQueue s' = mFinishQueue s @ [f]
          \<and> (mFinishQueue s = [] \<longrightarrow>
                mFdEvents s' = (ALOOPER_EVENT_INPUT OR ALOOPER_EVENT_OUTPUT)
                \<and> looperCalls s' = looperCalls s @
                     (if mFdEvents s = (ALOOPER_EVENT_INPUT OR ALOOPER_EVENT_OUTPUT) then []
                      else [AddFd (ALOOPER_EVENT_INPUT OR ALOOPER_EVENT_OUTPUT)]))
          \<and> (mFinishQueue s \<noteq> [] \<longrightarrow>
                mFdEvents s' = mFdEvents s \<and> looperCalls s' = looperCalls s))
    \<and> (status \<noteq> OK \<and> status \<noteq> WOULD_BLOCK \<longrightarrow> ret = status
          \<and> sentSignals s' = sentSignals s \<and> mFinishQueue s' = mFinishQueue s
          \<and> mFdEvents s' = mFdEvents s \<and> looperCalls s' = looperCalls s)"
  using assms
  by (auto simp add: finishInputEvent_def sendFinishedSignal_def setFdEvents_def Let_def
        status_defs looper_defs split: if_splits)


theorem finishInputEvent_enqueue_or_send_witness:
  "fst (finishInputEvent 5 True bufferFull) = OK
   \<and> sendCalls oneQueued = 1
   \<and> sentSignals oneQueued = []
   \<and> mFinishQueue oneQueued = [\<lparr>seq = 5, handled = True\<rparr>]
   \<and> mFdEvents oneQueued = 3
   \<and> looperCalls oneQueued = [AddFd 1, AddFd 3]"
  using finishInputEvent_enqueue_or_send [of 5 True bufferFull
      "fst (finishInputEvent 5 True bufferFull)" oneQueued WOULD_BLOCK "\<lparr>seq = 5, handled = True\<rparr>"]
  by (simp add: oneQueued_def bufferFull_simps status_defs looper_defs)

section \<open>Write-readiness: flushing the queue\<close>

text \<open>
  Claim C5, as stated, fails for a write-readiness notification that also carries
  read-readiness: \<open>handleEvent\<close> tests the input bit first and returns from that
  branch (lines 178 to 183). In the run below record 5 is queued, read and write
  interest are registered, the transport would accept the record, and the notification
  carries both bits: nothing is sent, the record stays queued and the interest is not
  downgraded.
\<close>

theorem flush_skipped_when_readable_counterexample:
  "(ALOOPER_EVENT_INPUT OR ALOOPER_EVENT_OUTPUT) AND ALOOPER_EVENT_OUTPUT \<noteq> 0
   \<and> (ALOOPER_EVENT_INPUT OR ALOOPER_EVENT_OUTPUT)
        AND (ALOOPER_EVENT_ERROR OR ALOOPER_EVENT_HANGUP) = 0
   \<and> mFdEvents oneQueued = (ALOOPER_EVENT_INPUT OR ALOOPER_EVENT_OUTPUT)
   \<and> mFinishQueue oneQueued = [\<lparr>seq = 5, handled = True\<rparr>]
   \<and> sendResults oneQueued (sendCalls oneQueued) = OK
   \<and> (\<exists>t. handleEvent (ALOOPER_EVENT_INPUT OR ALOOPER_EVENT_OUTPUT) oneQueued = Some (1, t)
        \<and> mFinishQueue t = [\<lparr>seq = 5, handled = True\<rparr>]
        \<and> sentSignals t = []
        \<and> sendCalls t = sendCalls oneQueued
        \<and> mFdEvents t = (ALOOPER_EVENT_INPUT OR ALOOPER_EVENT_OUTPUT))"
  by (simp add: oneQueued_def bufferFull_def run_defs scenario_defs status_defs looper_defs)

text \<open>
  Claim C5, amended. A write-readiness notification that carries neither the input bit
  nor an error or hangup bit sends the queued records
  from the front in insertion order. If the first \<open>j\<close> records are accepted and the
  transport answers \<open>WOULD_BLOCK\<close> for record \<open>j\<close>, exactly the first \<open>j\<close> records
  are removed, record \<open>j\<close> and all later ones stay queued, the registered interest is
  left as it is and the callback returns 1 (retry later). If every record is accepted,
  the queue is cleared, the interest is set back to \<open>ALOOPER_EVENT_INPUT\<close> and the
  callback returns 1.
\<close>

theorem handleEvent_output_flush:
  assumes "events AND (ALOOPER_EVENT_ERROR OR ALOOPER_EVENT_HANGUP) = 0"
    and "events AND ALOOPER_EVENT_INPUT = 0"
    and "events AND ALOOPER_EVENT_OUTPUT \<noteq> 0"
  shows "(j < length (mFinishQueue s)
          \<and> (\<forall>m<j. sendResults s (sendCalls s + m) = OK)
          \<and> sendResults s (sendCalls s + j) = WOULD_BLOCK \<longrightarrow>
          (\<exists>s'. handleEvent events s = Some (1, s')
             \<and> mFinishQueue s' = drop j (mFinishQueue s)
             \<and> sentSignals s' = sentSignals s @ take j (mFinishQueue s)
             \<and> mFdEvents s' = mFdEvents s \<and> looperCalls s' = looperCalls s))
      \<and> ((\<forall>m<length (mFinishQueue s). sendResults s (sendCalls s + m) = OK) \<longrightarrow>
          (\<exists>s'. handleEvent events s = Some (1, s')
             \<and> mFinishQueue s' = []
             \<and> sentSignals s' = sentSignals s @ mFinishQueue s
             \<and> mFdEvents s' = ALOOPER_EVENT_INPUT
             \<and> looperCalls s' = looperCalls s @
                  (if mFdEvents s = ALOOPER_EVENT_INPUT then []
                   else [AddFd ALOOPER_EVENT_INPUT])))"
proof (intro conjI impI)
  assume a: "j < length (mFinishQueue s)
          \<and> (\<forall>m<j. sendResults s (sendCalls s + m) = OK)
          \<and> sendResults s (sendCalls s + j) = WOULD_BLOCK"
  then obtain s' where s': "sendQueued 0 s = (Some 1, s')"
      "mFinishQueue s' = drop j (mFinishQueue s)"
      "sentSignals s' = sentSignals s @ take j (mFinishQueue s)"
      "mFdEvents s' = mFdEvents s" "looperCalls s' = looperCalls s"
    using sendQueued_would_block [where i = 0 and n = j and s = s] by auto
  have "handleEvent events s = Some (1, s')"
    using assms s'(1) by (simp add: handleEvent_def)
  then show "\<exists>s'. handleEvent events s = Some (1, s')
             \<and> mFinishQueue s' = drop j (mFinishQueue s)
             \<and> sentSignals s' = sentSignals s @ take j (mFinishQueue s)
             \<and> mFdEvents s' = mFdEvents s \<and> looperCalls s' = looperCalls s"
    using s' by simp
next
  assume a: "\<forall>m<length (mFinishQueue s). sendResults s (sendCalls s + m) = OK"
  then obtain s1 where s1: "sendQueued 0 s = (None, s1)"
      "mFinishQueue s1 = mFinishQueue s"
      "sentSignals s1 = sentSignals s @ drop 0 (mFinishQueue s)"
      "mFdEvents s1 = mFdEvents s" "looperCalls s1 = looperCalls s"
    using sendQueued_all_sent [where i = 0 and s = s] by auto
  let ?s' = "setFdEvents ALOOPER_EVENT_INPUT (s1\<lparr>mFinishQueue := []\<rparr>)"
  have "handleEvent events s = Some (1, ?s')"
    using assms s1(1) by (simp add: handleEvent_def)
  moreover have "mFinishQueue ?s' = []" "sentSignals ?s' = sentSignals s @ mFinishQueue s"
    "mFdEvents ?s' = ALOOPER_EVENT_INPUT"
    "looperCalls ?s' = looperCalls s @
       (if mFdEvents s = ALOOPER_EVENT_INPUT then [] else [AddFd ALOOPER_EVENT_INPUT])"
    using s1 by (simp_all add: setFdEvents_def Let_def looper_defs)
  ultimately show "\<exists>s'. handleEvent events s = Some (1, s')
             \<and> mFinishQueue s' = []
             \<and> sentSignals s' = sentSignals s @ mFinishQueue s
             \<and> mFdEvents s' = ALOOPER_EVENT_INPUT
             \<and> looperCalls s' = looperCalls s @
                  (if mFdEvents s = ALOOPER_EVENT_INPUT then []
                   else [AddFd ALOOPER_EVENT_INPUT])"
    by blast
qed


theorem handleEvent_output_flush_witness:
  "(\<exists>s'. handleEvent 2 oneQueued = Some (1, s')
      \<and> mFinishQueue s' = [] \<and> sentSignals s' = [\<lparr>seq = 5, handled = True\<rparr>]
      \<and> mFdEvents s' = 1 \<and> looperCalls s' = [AddFd 1, AddFd 3, AddFd 1])
   \<and> (\<exists>s'. handleEvent 2 threeQueued = Some (1, s')
      \<and> mFinishQueue s' = [\<lparr>seq = 6, handled = True\<rparr>, \<lparr>seq = 7, handled = False\<rparr>]
      \<and> sentSignals s' = [\<lparr>seq = 5, handled = True\<rparr>]
      \<and> mFdEvents s' = 3 \<and> looperCalls s' = [AddFd 1, AddFd 3])"
  using handleEvent_output_flush [of 2 0 oneQueued] handleEvent_output_flush [of 2 1 threeQueued]
  by (simp add: oneQueued_simps threeQueued_simps script_def status_defs looper_defs)

section \<open>Disposal\<close>

text \<open>
  Claim C7. \<open>dispose()\<close> is idempotent: a second call right after a first one changes
  nothing and makes no call to the looper, so that \<open>removeFd\<close> is called at most once
  over both calls. \<open>dispose\<close> has no failure path.
\<close>

theorem dispose_idempotent:
  "dispose (dispose s) = dispose s
   \<and> looperCalls (dispose s) = looperCalls s @ (if mFdEvents s = 0 then [] else [RemoveFd])
   \<and> looperCalls (dispose (dispose s)) = looperCalls (dispose s)
   \<and> length (filter (\<lambda>c. c = RemoveFd) (looperCalls (dispose (dispose s))))
        \<le> length (filter (\<lambda>c. c = RemoveFd) (looperCalls s)) + 1"
  by (simp add: dispose_def setFdEvents_def Let_def)

theorem dispose_idempotent_witness:
  "dispose (dispose oneQueued) = dispose oneQueued
   \<and> looperCalls (dispose oneQueued) = [AddFd 1, AddFd 3, RemoveFd]
   \<and> looperCalls (dispose (dispose oneQueued)) = [AddFd 1, AddFd 3, RemoveFd]"
  using dispose_idempotent [of oneQueued]
  by (simp add: oneQueued_simps)

section \<open>The loop of \<open>consumeEvents\<close>\<close>

lemma consumeEvents_loop_return:
  "consumeEvents_body l s = Inl res \<Longrightarrow> consumeEvents_loop l s = Some res"
  by (subst consumeEvents_loop.simps) simp

lemma consumeEvents_loop_continue:
  "consumeEvents_body l s = Inr (l', s') \<Longrightarrow> consumeEvents_loop l s = consumeEvents_loop l' s'"
  by (subst consumeEvents_loop.simps) simp

lemma body_dead_referent:
  "\<not> receiverObj l \<Longrightarrow> \<not> referent s \<Longrightarrow>
   consumeEvents_body l s = Inl (DEAD_OBJECT, l, s\<lparr>consumeCalls := consumeCalls s + 1\<rparr>)"
  by (simp add: consumeEvents_body_def consume_def)

lemma body_transport_error:
  "receiverObj l \<or> referent s \<Longrightarrow>
   c_status (consumeResults s (consumeCalls s)) \<noteq> OK \<Longrightarrow>
   c_status (consumeResults s (consumeCalls s)) \<noteq> WOULD_BLOCK \<Longrightarrow>
   \<exists>s'. consumeEvents_body l s =
     Inl (c_status (consumeResults s (consumeCalls s)), l\<lparr>receiverObj := True\<rparr>, s')"
  by (auto simp add: consumeEvents_body_def consume_def notifyMotionEventInfo_def
      CallVoidMethod_def Let_def)

section \<open>Read-readiness: keeping or removing the callback\<close>

text \<open>
  Claim C10. On a read-readiness notification (no error or hangup bit, the input bit
  set) \<open>handleEvent\<close> keeps the callback (returns 1) exactly when \<open>consumeEvents\<close>
  returned \<open>OK\<close> or \<open>NO_MEMORY\<close>; every other status makes it return 0, so that the
  looper removes the callback. In particular a finalized receiver makes \<open>consumeEvents\<close>
  return \<open>DEAD_OBJECT\<close> and the callback is removed, and a transport error \<open>st\<close> is
  returned by \<open>consumeEvents\<close> as it is, so that \<open>NO_MEMORY\<close> keeps the callback and
  any other error removes it.
\<close>

theorem handleEvent_input_keeps_or_removes:
  assumes "events AND (ALOOPER_EVENT_ERROR OR ALOOPER_EVENT_HANGUP) = 0"
    and "events AND ALOOPER_EVENT_INPUT \<noteq> 0"
  shows "(consumeEvents False (- 1) False s = Some (status, ocb, s1) \<longrightarrow>
            handleEvent events s =
              Some (if status = OK \<or> status = NO_MEMORY then 1 else 0,
                    raiseAndClearException ''handleReceiveCallback'' s1))
    \<and> (\<not> referent s \<longrightarrow>
          (\<exists>s1. consumeEvents False (- 1) False s = Some (DEAD_OBJECT, None, s1))
          \<and> (\<exists>s'. handleEvent events s = Some (0, s')))
    \<and> (referent s \<and> c_status (consumeResults s (consumeCalls s)) = st
          \<and> st \<noteq> OK \<and> st \<noteq> WOULD_BLOCK \<longrightarrow>
          (\<exists>s1. consumeEvents False (- 1) False s = Some (st, None, s1))
          \<and> (\<exists>s'. handleEvent events s = Some (if st = NO_MEMORY then 1 else 0, s')))"
proof (intro conjI impI)
  assume "consumeEvents False (- 1) False s = Some (status, ocb, s1)"
  then show "handleEvent events s =
      Some (if status = OK \<or> status = NO_MEMORY then 1 else 0,
            raiseAndClearException ''handleReceiveCallback'' s1)"
    using assms by (simp add: handleEvent_def)
next
  assume dead: "\<not> referent s"
  let ?l = "\<lparr>receiverObj = False, skipCallbacks = False, outConsumedBatch = None\<rparr>"
  have "consumeEvents_loop ?l s =
      Some (DEAD_OBJECT, ?l, s\<lparr>consumeCalls := consumeCalls s + 1\<rparr>)"
    using dead by (simp add: consumeEvents_loop_return body_dead_referent)
  then have c: "consumeEvents False (- 1) False s =
      Some (DEAD_OBJECT, None, s\<lparr>consumeCalls := consumeCalls s + 1\<rparr>)"
    by (simp add: consumeEvents_def)
  then show "\<exists>s1. consumeEvents False (- 1) False s = Some (DEAD_OBJECT, None, s1)"
    by blast
  show "\<exists>s'. handleEvent events s = Some (0, s')"
    using assms c by (simp add: handleEvent_def status_defs)
next
  assume a: "referent s \<and> c_status (consumeResults s (consumeCalls s)) = st
          \<and> st \<noteq> OK \<and> st \<noteq> WOULD_BLOCK"
  let ?l = "\<lparr>receiverObj = False, skipCallbacks = False, outConsumedBatch = None\<rparr>"
  obtain s1 where "consumeEvents_body ?l s = Inl (st, ?l\<lparr>receiverObj := True\<rparr>, s1)"
    using a body_transport_error [of ?l s] by auto
  then have "consumeEvents_loop ?l s = Some (st, ?l\<lparr>receiverObj := True\<rparr>, s1)"
    by (rule consumeEvents_loop_return)
  then have c: "consumeEvents False (- 1) False s = Some (st, None, s1)"
    by (simp add: consumeEvents_def)
  then show "\<exists>s1. consumeEvents False (- 1) False s = Some (st, None, s1)"
    by blast
  show "\<exists>s'. handleEvent events s = Some (if st = NO_MEMORY then 1 else 0, s')"
    using assms c a by (simp add: handleEvent_def status_defs)
qed

theorem handleEvent_input_keeps_or_removes_witness:
  "(\<exists>s'. handleEvent 1 deadReceiver = Some (0, s'))
   \<and> (\<exists>s'. handleEvent 1 outOfMemory = Some (1, s'))"
  using handleEvent_input_keeps_or_removes
          [where events = 1 and s = deadReceiver and status = DEAD_OBJECT and ocb = None
             and ?s1.0 = deadReceiver and st = NO_MEMORY]
        handleEvent_input_keeps_or_removes
          [where events = 1 and s = outOfMemory and status = DEAD_OBJECT and ocb = None
             and ?s1.0 = outOfMemory and st = NO_MEMORY]
  by (simp add: deadReceiver_def outOfMemory_def initialize_def setFdEvents_def
        scenario_defs status_defs looper_defs)

section \<open>Events skipped after a handler failure\<close>

text \<open>
  Claim C1 says that an event whose handler callback failed is always acknowledged with
  \<open>handled = false\<close>, also when the transport answers \<open>WOULD_BLOCK\<close> at that moment.
  The skip path (line 378) calls \<open>sendFinishedSignal\<close> directly and drops its status;
  it does not go through \<open>finishInputEvent\<close> as the focus branch (line 350) does. The
  run below is the failing input: the handler throws on key event 7 and the transport
  answers \<open>WOULD_BLOCK\<close> to the one attempt. \<open>consumeEvents\<close> returns \<open>OK\<close>, nothing
  was sent, nothing is queued, write-readiness was not requested, and a later flush with
  a transport that accepts again has nothing to send.
\<close>

theorem skipped_event_finish_lost:
  "\<exists>s'. consumeEvents False (- 1) False handlerFailsBufferFull = Some (OK, None, s')
     \<and> javaCalls s' = [DispatchInputEvent 7 KeyEvent]
     \<and> consumeCalls s' = 2 \<and> sendCalls s' = 1
     \<and> sentSignals s' = [] \<and> mFinishQueue s' = []
     \<and> mFdEvents s' = ALOOPER_EVENT_INPUT
     \<and> sendResults s' (sendCalls s') = OK
     \<and> (\<exists>s''. handleEvent ALOOPER_EVENT_OUTPUT s' = Some (1, s'') \<and> sentSignals s'' = [])"
  by (simp add: handlerFailsBufferFull_def run_defs scenario_defs status_defs looper_defs)

section \<open>Order of the finished signals\<close>


section \<open>What the steps of the loop body leave unchanged\<close>

lemma dispatchObj_frame:
  "javaCalls (snd (dispatchObj obj sq ev l s)) =
     javaCalls s @ (if obj then [DispatchInputEvent sq ev] else [])"
  "mLastMotionEventType (snd (dispatchObj obj sq ev l s)) = mLastMotionEventType s"
  "mLastTouchMoveNum (snd (dispatchObj obj sq ev l s)) = mLastTouchMoveNum s"
  "mFinishQueue (snd (dispatchObj obj sq ev l s)) = mFinishQueue s"
  "mFdEvents (snd (dispatchObj obj sq ev l s)) = mFdEvents s"
  "looperCalls (snd (dispatchObj obj sq ev l s)) = looperCalls s"
  by (simp_all add: dispatchObj_def CallVoidMethod_def Let_def)

lemma finishSkipped_frame:
  "javaCalls (finishSkipped sq l s) = javaCalls s"
  "mLastMotionEventType (finishSkipped sq l s) = mLastMotionEventType s"
  "mLastTouchMoveNum (finishSkipped sq l s) = mLastTouchMoveNum s"
  "mFinishQueue (finishSkipped sq l s) = mFinishQueue s"
  "mFdEvents (finishSkipped sq l s) = mFdEvents s"
  "looperCalls (finishSkipped sq l s) = looperCalls s"
  by (simp_all add: finishSkipped_def sendFinishedSignal_snd)

lemma obtainEventObj_frame:
  "javaCalls (snd (obtainEventObj s)) = javaCalls s"
  "mLastMotionEventType (snd (obtainEventObj s)) = mLastMotionEventType s"
  "mLastTouchMoveNum (snd (obtainEventObj s)) = mLastTouchMoveNum s"
  "mFinishQueue (snd (obtainEventObj s)) = mFinishQueue s"
  "mFdEvents (snd (obtainEventObj s)) = mFdEvents s"
  "looperCalls (snd (obtainEventObj s)) = looperCalls s"
  by (simp_all add: obtainEventObj_def)

lemma CallVoidMethod_frame:
  "javaCalls (CallVoidMethod c s) = javaCalls s @ [c]"
  "mLastMotionEventType (CallVoidMethod c s) = mLastMotionEventType s"
  "mLastTouchMoveNum (CallVoidMethod c s) = mLastTouchMoveNum s"
  "mFinishQueue (CallVoidMethod c s) = mFinishQueue s"
  "mFdEvents (CallVoidMethod c s) = mFdEvents s"
  "looperCalls (CallVoidMethod c s) = looperCalls s"
  by (simp_all add: CallVoidMethod_def)

lemma setFdEvents_frame:
  "javaCalls (setFdEvents e s) = javaCalls s"
  "mLastMotionEventType (setFdEvents e s) = mLastMotionEventType s"
  "mLastTouchMoveNum (setFdEvents e s) = mLastTouchMoveNum s"
  "mFinishQueue (setFdEvents e s) = mFinishQueue s"
  "mFdEvents (setFdEvents e s) = e"
  by (simp_all add: setFdEvents_def Let_def)

lemma finishInputEvent_frame:
  "javaCalls (snd (finishInputEvent sq h s)) = javaCalls s"
  "mLastMotionEventType (snd (finishInputEvent sq h s)) = mLastMotionEventType s"
  "mLastTouchMoveNum (snd (finishInputEvent sq h s)) = mLastTouchMoveNum s"
  by (simp_all add: finishInputEvent_def sendFinishedSignal_def setFdEvents_frame Let_def)

lemma onEvent_motion_view:
  "filter isMotionEventInfo (javaCalls (stateAfter (onEvent r l s))) =
     filter isMotionEventInfo (javaCalls s)
   \<and> mLastMotionEventType (stateAfter (onEvent r l s)) = mLastMotionEventType s
   \<and> mLastTouchMoveNum (stateAfter (onEvent r l s)) = mLastTouchMoveNum s"
  by (cases "c_event r")
     (simp_all add: onEvent_def stateAfter_def Let_def case_prod_beta isMotionEventInfo_def
        dispatchObj_frame finishSkipped_frame obtainEventObj_frame CallVoidMethod_frame
        finishInputEvent_frame)


lemma stateAfter_Inl: "stateAfter (Inl x) = snd (snd x)"
  by (simp add: stateAfter_def case_prod_beta)

lemma body_unfold:
  "receiverObj l \<or> referent s \<Longrightarrow>
   consumeEvents_body l s =
     (if c_status (consumeResults s (consumeCalls s)) \<noteq> OK \<and>
         c_status (consumeResults s (consumeCalls s)) \<noteq> WOULD_BLOCK
      then Inl (c_status (consumeResults s (consumeCalls s)), l\<lparr>receiverObj := True\<rparr>,
                notifyMotionEventInfo (consumeResults s (consumeCalls s))
                  (s\<lparr>consumeCalls := consumeCalls s + 1\<rparr>))
      else if c_status (consumeResults s (consumeCalls s)) = WOULD_BLOCK
      then Inl (onWouldBlock (l\<lparr>receiverObj := True\<rparr>)
                  (notifyMotionEventInfo (consumeResults s (consumeCalls s))
                     (s\<lparr>consumeCalls := consumeCalls s + 1\<rparr>)))
      else onEvent (consumeResults s (consumeCalls s)) (l\<lparr>receiverObj := True\<rparr>)
             (notifyMotionEventInfo (consumeResults s (consumeCalls s))
                (s\<lparr>consumeCalls := consumeCalls s + 1\<rparr>)))"
  by (auto simp add: consumeEvents_body_def consume_def Let_def)

lemma onWouldBlock_motion_view:
  "filter isMotionEventInfo (javaCalls (snd (snd (onWouldBlock l s)))) =
     filter isMotionEventInfo (javaCalls s)
   \<and> mLastMotionEventType (snd (snd (onWouldBlock l s))) = mLastMotionEventType s
   \<and> mLastTouchMoveNum (snd (snd (onWouldBlock l s))) = mLastTouchMoveNum s"
  by (simp add: onWouldBlock_def CallVoidMethod_def Let_def isMotionEventInfo_def)

lemma notify_motion_view:
  "filter isMotionEventInfo (javaCalls (notifyMotionEventInfo r s)) =
     filter isMotionEventInfo (javaCalls s) @
       (if c_flag r \<and> (c_motionEventType r, c_touchMoveNum r) \<noteq>
                        (mLastMotionEventType s, mLastTouchMoveNum s)
        then [DispatchMotionEventInfo (c_motionEventType r) (c_touchMoveNum r)] else [])
   \<and> (mLastMotionEventType (notifyMotionEventInfo r s), mLastTouchMoveNum (notifyMotionEventInfo r s)) =
       (if c_flag r then (c_motionEventType r, c_touchMoveNum r)
        else (mLastMotionEventType s, mLastTouchMoveNum s))"
  by (auto simp add: notifyMotionEventInfo_def CallVoidMethod_def isMotionEventInfo_def)

lemma body_motion_view:
  assumes "receiverObj l \<or> referent s"
  shows "filter isMotionEventInfo (javaCalls (stateAfter (consumeEvents_body l s))) =
       filter isMotionEventInfo (javaCalls (notifyMotionEventInfo (consumeResults s (consumeCalls s))
                  (s\<lparr>consumeCalls := consumeCalls s + 1\<rparr>)))
     \<and> mLastMotionEventType (stateAfter (consumeEvents_body l s)) =
       mLastMotionEventType (notifyMotionEventInfo (consumeResults s (consumeCalls s))
                  (s\<lparr>consumeCalls := consumeCalls s + 1\<rparr>))
     \<and> mLastTouchMoveNum (stateAfter (consumeEvents_body l s)) =
       mLastTouchMoveNum (notifyMotionEventInfo (consumeResults s (consumeCalls s))
                  (s\<lparr>consumeCalls := consumeCalls s + 1\<rparr>))"
  unfolding body_unfold [OF assms]
  by (simp add: stateAfter_Inl onWouldBlock_motion_view onEvent_motion_view)

section \<open>Motion-info notification\<close>

text \<open>
  Claim C9, as stated, fails: the notification is also suppressed when the transport did
  not set \<open>flag\<close>, whatever the pair is. In the run below the second result is a key
  event for which the flag is clear and the pair is (-1,-1); the remembered signature is
  (1,0), the pair differs from it, and no \<open>dispatchMotionEventInfo\<close> call is made for
  it; the signature stays (1,0).
\<close>

theorem motion_info_unflagged_counterexample:
  "\<exists>t. consumeEvents False (- 1) False motionThenKey = Some (OK, None, t)
     \<and> consumeResults motionThenKey 1 = decoded 2 KeyEvent
     \<and> c_flag (decoded 2 KeyEvent) = False
     \<and> (c_motionEventType (decoded 2 KeyEvent), c_touchMoveNum (decoded 2 KeyEvent)) = (- 1, - 1)
     \<and> javaCalls t = [DispatchMotionEventInfo 1 0, DispatchInputEvent 1 (MotionEvent 0),
                       DispatchInputEvent 2 KeyEvent]
     \<and> (mLastMotionEventType t, mLastTouchMoveNum t) = (1, 0)"
  by (simp add: motionThenKey_def run_defs scenario_defs status_defs looper_defs
        AMOTION_EVENT_ACTION_MOVE_def)


text \<open>
  Claim C9, amended. While the receiver object is reachable, one iteration of the loop
  of \<open>consumeEvents\<close> calls \<open>dispatchMotionEventInfo\<close> exactly when the transport
  set \<open>flag\<close> and the pair (motionEventType, touchMoveNum) differs from the remembered
  signature, and nothing else in the iteration makes such a call or changes the
  signature: after a flagged result the signature is the pair, after an unflagged one it
  is unchanged. For the four flagged results (1,0), (1,0), (1,1), (2,0), starting from
  the signature (-1,-1), exactly three notifications are made.
\<close>

theorem motion_info_notification:
  assumes "receiverObj l \<or> referent s"
    and "r = consumeResults s (consumeCalls s)"
    and "s' = stateAfter (consumeEvents_body l s)"
  shows "filter isMotionEventInfo (javaCalls s') =
       filter isMotionEventInfo (javaCalls s) @
         (if c_flag r \<and> (c_motionEventType r, c_touchMoveNum r) \<noteq>
                          (mLastMotionEventType s, mLastTouchMoveNum s)
          then [DispatchMotionEventInfo (c_motionEventType r) (c_touchMoveNum r)] else [])
     \<and> (mLastMotionEventType s', mLastTouchMoveNum s') =
         (if c_flag r then (c_motionEventType r, c_touchMoveNum r)
          else (mLastMotionEventType s, mLastTouchMoveNum s))
     \<and> (\<exists>t. consumeEvents False (- 1) False fourMotions = Some (OK, None, t)
          \<and> filter isMotionEventInfo (javaCalls t) =
              [DispatchMotionEventInfo 1 0, DispatchMotionEventInfo 1 1,
               DispatchMotionEventInfo 2 0])"
proof -
  let ?s1 = "s\<lparr>consumeCalls := consumeCalls s + 1\<rparr>"
  have general: "filter isMotionEventInfo (javaCalls s') =
       filter isMotionEventInfo (javaCalls s) @
         (if c_flag r \<and> (c_motionEventType r, c_touchMoveNum r) \<noteq>
                          (mLastMotionEventType s, mLastTouchMoveNum s)
          then [DispatchMotionEventInfo (c_motionEventType r) (c_touchMoveNum r)] else [])
     \<and> (mLastMotionEventType s', mLastTouchMoveNum s') =
         (if c_flag r then (c_motionEventType r, c_touchMoveNum r)
          else (mLastMotionEventType s, mLastTouchMoveNum s))"
    using body_motion_view [OF assms(1)] notify_motion_view [of r ?s1]
    unfolding assms(2,3) by simp
  have example: "\<exists>t. consumeEvents False (- 1) False fourMotions = Some (OK, None, t)
          \<and> filter isMotionEventInfo (javaCalls t) =
              [DispatchMotionEventInfo 1 0, DispatchMotionEventInfo 1 1,
               DispatchMotionEventInfo 2 0]"
    by (simp add: fourMotions_def run_defs scenario_defs status_defs looper_defs
        isMotionEventInfo_def AMOTION_EVENT_ACTION_MOVE_def)
  show ?thesis using general example by blast
qed


theorem motion_info_notification_witness:
  "filter isMotionEventInfo (javaCalls (stateAfter
       (consumeEvents_body \<lparr>receiverObj = False, skipCallbacks = False, outConsumedBatch = None\<rparr>
          fourMotions))) = [DispatchMotionEventInfo 1 0]
   \<and> (\<exists>t. consumeEvents False (- 1) False fourMotions = Some (OK, None, t)
          \<and> filter isMotionEventInfo (javaCalls t) =
              [DispatchMotionEventInfo 1 0, DispatchMotionEventInfo 1 1,
               DispatchMotionEventInfo 2 0])"
  using motion_info_notification
    [where l = "\<lparr>receiverObj = False, skipCallbacks = False, outConsumedBatch = None\<rparr>"
       and s = fourMotions and r = "withMotionInfo 1 0 True (decoded 1 (MotionEvent 0))"
       and s' = "stateAfter (consumeEvents_body
          \<lparr>receiverObj = False, skipCallbacks = False, outConsumedBatch = None\<rparr> fourMotions)"]
  by (simp add: fourMotions_def initialize_def setFdEvents_def scenario_defs looper_defs)


section \<open>Batch-pending notification\<close>

lemma notify_batch_view:
  "filter isBatchPending (javaCalls (notifyMotionEventInfo r s)) = filter isBatchPending (javaCalls s)"
  "mBatchedInputEventPending (notifyMotionEventInfo r s) = mBatchedInputEventPending s"
  "hasPendingBatch (notifyMotionEventInfo r s) = hasPendingBatch s"
  "getPendingBatchSource (notifyMotionEventInfo r s) = getPendingBatchSource s"
  "referent (notifyMotionEventInfo r s) = referent s"
  "consumeCalls (notifyMotionEventInfo r s) = consumeCalls s"
  "callThrows (notifyMotionEventInfo r s) = callThrows s"
  by (simp_all add: notifyMotionEventInfo_def CallVoidMethod_def isBatchPending_def)

lemma onWouldBlock_notifies:
  assumes "\<not> skipCallbacks l" "\<not> mBatchedInputEventPending s" "hasPendingBatch s"
    "receiverObj l \<or> referent s"
  shows "\<exists>s'. onWouldBlock l s = (OK, l\<lparr>receiverObj := True\<rparr>, s')
     \<and> consumeCalls s' = consumeCalls s
     \<and> javaCalls s' = javaCalls s @ [OnBatchedInputEventPending (getPendingBatchSource s)]
     \<and> exceptionPending s' = (exceptionPending s \<or> callThrows s (length (javaCalls s)))
     \<and> mBatchedInputEventPending s' = (\<not> exceptionPending s')"
  using assms by (auto simp add: onWouldBlock_def CallVoidMethod_def Let_def)

lemma onWouldBlock_quiet:
  assumes "skipCallbacks l \<or> mBatchedInputEventPending s \<or> \<not> hasPendingBatch s"
  shows "onWouldBlock l s = (OK, l, s)"
  using assms by (auto simp add: onWouldBlock_def)

lemma loop_would_block:
  assumes "c_status (consumeResults s (consumeCalls s)) = WOULD_BLOCK"
    and "receiverObj l \<or> referent s"
  shows "consumeEvents_loop l s =
     Some (onWouldBlock (l\<lparr>receiverObj := True\<rparr>)
             (notifyMotionEventInfo (consumeResults s (consumeCalls s))
                (s\<lparr>consumeCalls := consumeCalls s + 1\<rparr>)))"
  using assms by (simp add: consumeEvents_loop_return body_unfold status_defs)

text \<open>
  Claim C8, as stated, fails: the notification is also gated by the skip-state. In the
  run below the receiver object is reachable, no batch notification was sent and the
  transport reports a pending batch; the handler throws on key event 1, the loop then
  hits \<open>WOULD_BLOCK\<close>, and \<open>onBatchedInputEventPending\<close> is not called and the flag
  is not set.
\<close>

theorem batch_pending_skip_counterexample:
  "referent skipThenBatch \<and> hasPendingBatch skipThenBatch
   \<and> \<not> mBatchedInputEventPending skipThenBatch
   \<and> (\<exists>t. consumeEvents False (- 1) False skipThenBatch = Some (OK, None, t)
        \<and> c_status (consumeResults skipThenBatch 1) = WOULD_BLOCK
        \<and> consumeCalls t = 2
        \<and> javaCalls t = [DispatchInputEvent 1 KeyEvent]
        \<and> \<not> mBatchedInputEventPending t)"
  by (simp add: skipThenBatch_def run_defs scenario_defs status_defs looper_defs)


text \<open>
  Claim C8, amended. When an iteration of the loop of \<open>consumeEvents\<close> gets
  \<open>WOULD_BLOCK\<close> from the transport with the receiver object reachable, the skip-state
  not active, the pending flag clear and a pending batch reported, the call returns
  \<open>OK\<close> after exactly one \<open>onBatchedInputEventPending\<close> call (the last Java call
  made); the flag ends set unless an exception is pending after the callback, in
  particular it is reset when that callback throws. A call with
  \<open>consumeBatches = true\<close> clears the flag first: it notifies whatever the flag
  was; a call with \<open>consumeBatches = false\<close> and the flag set does not notify and
  leaves the flag set.
\<close>

theorem batch_pending_notification:
  assumes "c_status (consumeResults s (consumeCalls s)) = WOULD_BLOCK"
    and "hasPendingBatch s"
    and "receiverObj l \<or> referent s"
  shows "(\<not> skipCallbacks l \<and> \<not> mBatchedInputEventPending s \<longrightarrow>
           (\<exists>l' s'. consumeEvents_loop l s = Some (OK, l', s')
              \<and> consumeCalls s' = consumeCalls s + 1
              \<and> filter isBatchPending (javaCalls s') =
                  filter isBatchPending (javaCalls s) @
                    [OnBatchedInputEventPending (getPendingBatchSource s)]
              \<and> last (javaCalls s') = OnBatchedInputEventPending (getPendingBatchSource s)
              \<and> mBatchedInputEventPending s' = (\<not> exceptionPending s')
              \<and> (callThrows s (length (javaCalls s') - 1) \<longrightarrow> \<not> mBatchedInputEventPending s')))
      \<and> (referent s \<longrightarrow>
           (\<exists>ocb s'. consumeEvents True frameTime w s = Some (OK, ocb, s')
              \<and> filter isBatchPending (javaCalls s') =
                  filter isBatchPending (javaCalls s) @
                    [OnBatchedInputEventPending (getPendingBatchSource s)]
              \<and> mBatchedInputEventPending s' = (\<not> exceptionPending s')))
      \<and> (referent s \<and> mBatchedInputEventPending s \<longrightarrow>
           (\<exists>ocb s'. consumeEvents False frameTime w s = Some (OK, ocb, s')
              \<and> filter isBatchPending (javaCalls s') = filter isBatchPending (javaCalls s)
              \<and> mBatchedInputEventPending s'))"
proof (intro conjI impI)
  let ?r = "consumeResults s (consumeCalls s)"
  let ?s2 = "notifyMotionEventInfo ?r (s\<lparr>consumeCalls := consumeCalls s + 1\<rparr>)"
  let ?l1 = "l\<lparr>receiverObj := True\<rparr>"
  assume a: "\<not> skipCallbacks l \<and> \<not> mBatchedInputEventPending s"
  have "\<not> skipCallbacks ?l1" "\<not> mBatchedInputEventPending ?s2" "hasPendingBatch ?s2"
    "receiverObj ?l1 \<or> referent ?s2"
    using a assms(2) by (simp_all add: notify_batch_view)
  from onWouldBlock_notifies [OF this] obtain s' where s':
    "onWouldBlock ?l1 ?s2 = (OK, ?l1\<lparr>receiverObj := True\<rparr>, s')"
    "consumeCalls s' = consumeCalls ?s2"
    "javaCalls s' = javaCalls ?s2 @ [OnBatchedInputEventPending (getPendingBatchSource ?s2)]"
    "exceptionPending s' = (exceptionPending ?s2 \<or> callThrows ?s2 (length (javaCalls ?s2)))"
    "mBatchedInputEventPending s' = (\<not> exceptionPending s')"
    by blast
  have loop: "consumeEvents_loop l s = Some (OK, ?l1\<lparr>receiverObj := True\<rparr>, s')"
    using loop_would_block [OF assms(1,3)] s'(1) by simp
  have calls: "consumeCalls s' = consumeCalls s + 1"
    using s'(2) by (simp add: notify_batch_view)
  have java: "filter isBatchPending (javaCalls s') =
      filter isBatchPending (javaCalls s) @ [OnBatchedInputEventPending (getPendingBatchSource s)]"
    using s'(3) by (simp add: notify_batch_view isBatchPending_def)
  have lst: "last (javaCalls s') = OnBatchedInputEventPending (getPendingBatchSource s)"
    using s'(3) by (simp add: notify_batch_view)
  have thr: "callThrows s (length (javaCalls s') - 1) \<longrightarrow> \<not> mBatchedInputEventPending s'"
    using s'(3,4,5) by (simp add: notify_batch_view)
  show "\<exists>l' s'. consumeEvents_loop l s = Some (OK, l', s')
      \<and> consumeCalls s' = consumeCalls s + 1
      \<and> filter isBatchPending (javaCalls s') =
          filter isBatchPending (javaCalls s) @
            [OnBatchedInputEventPending (getPendingBatchSource s)]
      \<and> last (javaCalls s') = OnBatchedInputEventPending (getPendingBatchSource s)
      \<and> mBatchedInputEventPending s' = (\<not> exceptionPending s')
      \<and> (callThrows s (length (javaCalls s') - 1) \<longrightarrow> \<not> mBatchedInputEventPending s')"
    using loop calls java lst s'(5) thr by blast
next
  assume rf: "referent s"
  let ?s0 = "s\<lparr>mBatchedInputEventPending := False\<rparr>"
  let ?l = "\<lparr>receiverObj = False, skipCallbacks = False,
             outConsumedBatch = (if w then Some False else None)\<rparr>"
  let ?r = "consumeResults ?s0 (consumeCalls ?s0)"
  let ?s2 = "notifyMotionEventInfo ?r (?s0\<lparr>consumeCalls := consumeCalls ?s0 + 1\<rparr>)"
  let ?l1 = "?l\<lparr>receiverObj := True\<rparr>"
  have "\<not> skipCallbacks ?l1" "\<not> mBatchedInputEventPending ?s2" "hasPendingBatch ?s2"
    "receiverObj ?l1 \<or> referent ?s2"
    using assms(2) by (simp_all add: notify_batch_view)
  from onWouldBlock_notifies [OF this] obtain s' where s':
    "onWouldBlock ?l1 ?s2 = (OK, ?l1\<lparr>receiverObj := True\<rparr>, s')"
    "javaCalls s' = javaCalls ?s2 @ [OnBatchedInputEventPending (getPendingBatchSource ?s2)]"
    "mBatchedInputEventPending s' = (\<not> exceptionPending s')"
    by blast
  have "c_status (consumeResults ?s0 (consumeCalls ?s0)) = WOULD_BLOCK" "receiverObj ?l \<or> referent ?s0"
    using assms(1) rf by simp_all
  from loop_would_block [OF this]
  have loop: "consumeEvents_loop ?l ?s0 = Some (OK, ?l1\<lparr>receiverObj := True\<rparr>, s')"
    using s'(1) by simp
  have c: "consumeEvents True frameTime w s =
      Some (OK, outConsumedBatch (?l1\<lparr>receiverObj := True\<rparr>), s')"
    using loop by (simp add: consumeEvents_def)
  have java: "filter isBatchPending (javaCalls s') =
      filter isBatchPending (javaCalls s) @ [OnBatchedInputEventPending (getPendingBatchSource s)]"
    using s'(2) by (simp add: notify_batch_view isBatchPending_def)
  show "\<exists>ocb s'. consumeEvents True frameTime w s = Some (OK, ocb, s')
      \<and> filter isBatchPending (javaCalls s') =
          filter isBatchPending (javaCalls s) @
            [OnBatchedInputEventPending (getPendingBatchSource s)]
      \<and> mBatchedInputEventPending s' = (\<not> exceptionPending s')"
    using c java s'(3) by blast
next
  assume a: "referent s \<and> mBatchedInputEventPending s"
  let ?l = "\<lparr>receiverObj = False, skipCallbacks = False,
             outConsumedBatch = (if w then Some False else None)\<rparr>"
  let ?r = "consumeResults s (consumeCalls s)"
  let ?s2 = "notifyMotionEventInfo ?r (s\<lparr>consumeCalls := consumeCalls s + 1\<rparr>)"
  let ?l1 = "?l\<lparr>receiverObj := True\<rparr>"
  have "skipCallbacks ?l1 \<or> mBatchedInputEventPending ?s2 \<or> \<not> hasPendingBatch ?s2"
    using a by (simp add: notify_batch_view)
  from onWouldBlock_quiet [OF this]
  have q: "onWouldBlock ?l1 ?s2 = (OK, ?l1, ?s2)" .
  have "receiverObj ?l \<or> referent s" using a by simp
  from loop_would_block [OF assms(1) this]
  have loop: "consumeEvents_loop ?l s = Some (OK, ?l1, ?s2)"
    using q by simp
  have c: "consumeEvents False frameTime w s = Some (OK, outConsumedBatch ?l1, ?s2)"
    using loop by (simp add: consumeEvents_def)
  show "\<exists>ocb s'. consumeEvents False frameTime w s = Some (OK, ocb, s')
      \<and> filter isBatchPending (javaCalls s') = filter isBatchPending (javaCalls s)
      \<and> mBatchedInputEventPending s'"
    using c a by (simp add: notify_batch_view)
qed


theorem batch_pending_notification_witness:
  "(\<exists>t. consumeEvents False (- 1) False batchWaiting = Some (OK, None, t)
      \<and> javaCalls t = [OnBatchedInputEventPending 0]
      \<and> exceptionPending t \<and> \<not> mBatchedInputEventPending t)
   \<and> (\<exists>ocb t. consumeEvents True 0 False batchWaiting = Some (OK, ocb, t)
      \<and> filter isBatchPending (javaCalls t) = [OnBatchedInputEventPending 0])"
  using batch_pending_notification
    [where l = "\<lparr>receiverObj = False, skipCallbacks = False, outConsumedBatch = None\<rparr>"
       and s = batchWaiting and frameTime = 0 and w = False]
  by (simp add: batchWaiting_def run_defs scenario_defs status_defs looper_defs
        isBatchPending_def)


section \<open>Focus events\<close>

lemma finishInputEvent_fields:
  "sendCalls (snd (finishInputEvent sq h s)) = sendCalls s + 1"
  "sentSignals (snd (finishInputEvent sq h s)) =
     sentSignals s @ (if sendResults s (sendCalls s) = OK then [\<lparr>seq = sq, handled = h\<rparr>] else [])"
  "mFinishQueue (snd (finishInputEvent sq h s)) =
     mFinishQueue s @
       (if sendResults s (sendCalls s) = WOULD_BLOCK then [\<lparr>seq = sq, handled = h\<rparr>] else [])"
  "consumeCalls (snd (finishInputEvent sq h s)) = consumeCalls s"
  by (simp_all add: finishInputEvent_def sendFinishedSignal_def setFdEvents_def Let_def
        status_defs)

lemma notify_frame:
  "filter isFocusCall (javaCalls (notifyMotionEventInfo r s)) = filter isFocusCall (javaCalls s)"
  "filter isDispatchInputEvent (javaCalls (notifyMotionEventInfo r s)) =
     filter isDispatchInputEvent (javaCalls s)"
  "sendCalls (notifyMotionEventInfo r s) = sendCalls s"
  "sendResults (notifyMotionEventInfo r s) = sendResults s"
  "sentSignals (notifyMotionEventInfo r s) = sentSignals s"
  "mFinishQueue (notifyMotionEventInfo r s) = mFinishQueue s"
  "mFdEvents (notifyMotionEventInfo r s) = mFdEvents s"
  "looperCalls (notifyMotionEventInfo r s) = looperCalls s"
  by (simp_all add: notifyMotionEventInfo_def CallVoidMethod_def isFocusCall_def
        isDispatchInputEvent_def)

lemma onEvent_focus:
  "\<not> skipCallbacks l \<Longrightarrow> receiverObj l \<Longrightarrow> c_event r = FocusEvent hf tm \<Longrightarrow>
   onEvent r l s =
     Inl (OK, l\<lparr>receiverObj := True\<rparr>,
          snd (finishInputEvent (c_seq r) True (CallVoidMethod (OnFocusEvent hf tm) s)))"
  by (simp add: onEvent_def case_prod_beta Let_def)

lemma onEvent_skipping:
  "skipCallbacks l \<Longrightarrow>
   onEvent r l s = Inr (l, snd (sendFinishedSignal (c_seq r) False s))"
  by (simp add: onEvent_def finishSkipped_def)

text \<open>
  Claim C3, as stated, fails: the focus branch lies inside the \<open>if (!skipCallbacks)\<close>
  block, so a focus event decoded while the skip-state is active is not delivered. In
  the run below the handler throws on key event 1 and the second result is a focus
  event: \<open>onFocusEvent\<close> is never called, the focus event is finished with
  \<open>handled = false\<close>, and the loop goes on to a third \<open>consume\<close>.
\<close>

theorem focus_event_skipped_counterexample:
  "\<exists>t. consumeEvents False (- 1) False skipThenFocus = Some (OK, None, t)
     \<and> consumeResults skipThenFocus 1 = decoded 2 (FocusEvent True False)
     \<and> javaCalls t = [DispatchInputEvent 1 KeyEvent]
     \<and> sentSignals t = [\<lparr>seq = 1, handled = False\<rparr>, \<lparr>seq = 2, handled = False\<rparr>]
     \<and> consumeCalls t = 3"
  by (simp add: skipThenFocus_def run_defs scenario_defs status_defs looper_defs)

text \<open>
  Claim C3, amended. For a focus event decoded while the receiver object is reachable
  and the skip-state is not active, \<open>onFocusEvent(hasFocus, inTouchMode)\<close> is called,
  no \<open>dispatchInputEvent\<close> call is made, the event is finished with \<open>handled = true\<close>
  through \<open>finishInputEvent\<close> (one send attempt: the signal is sent when the
  transport accepts and queued when it answers \<open>WOULD_BLOCK\<close>), and \<open>consumeEvents\<close>
  returns \<open>OK\<close> without another \<open>consume\<close>. While the skip-state is active a focus
  event gets neither callback and the loop continues.
\<close>

theorem focus_event_dispatch:
  assumes "r = consumeResults s (consumeCalls s)"
    and "c_status r = OK"
    and "c_event r = FocusEvent hf tm"
    and "receiverObj l \<or> referent s"
  shows "(\<not> skipCallbacks l \<longrightarrow>
           (\<exists>l' s'. consumeEvents_loop l s = Some (OK, l', s')
              \<and> consumeCalls s' = consumeCalls s + 1
              \<and> filter isFocusCall (javaCalls s') =
                  filter isFocusCall (javaCalls s) @ [OnFocusEvent hf tm]
              \<and> filter isDispatchInputEvent (javaCalls s') =
                  filter isDispatchInputEvent (javaCalls s)
              \<and> sendCalls s' = sendCalls s + 1
              \<and> (sendResults s (sendCalls s) = OK \<longrightarrow>
                    sentSignals s' = sentSignals s @ [\<lparr>seq = c_seq r, handled = True\<rparr>]
                    \<and> mFinishQueue s' = mFinishQueue s)
              \<and> (sendResults s (sendCalls s) = WOULD_BLOCK \<longrightarrow>
                    sentSignals s' = sentSignals s
                    \<and> mFinishQueue s' = mFinishQueue s @ [\<lparr>seq = c_seq r, handled = True\<rparr>])))
      \<and> (skipCallbacks l \<longrightarrow>
           (\<exists>s'. consumeEvents_body l s = Inr (l\<lparr>receiverObj := True\<rparr>, s')
              \<and> filter isFocusCall (javaCalls s') = filter isFocusCall (javaCalls s)
              \<and> filter isDispatchInputEvent (javaCalls s') =
                  filter isDispatchInputEvent (javaCalls s)))"
proof (intro conjI impI)
  let ?s1 = "s\<lparr>consumeCalls := consumeCalls s + 1\<rparr>"
  let ?s2 = "notifyMotionEventInfo r ?s1"
  let ?l1 = "l\<lparr>receiverObj := True\<rparr>"
  let ?s' = "snd (finishInputEvent (c_seq r) True (CallVoidMethod (OnFocusEvent hf tm) ?s2))"
  assume ns: "\<not> skipCallbacks l"
  have body: "consumeEvents_body l s = onEvent r ?l1 ?s2"
    using assms(1,2,4) by (simp add: body_unfold status_defs)
  have "onEvent r ?l1 ?s2 = Inl (OK, ?l1\<lparr>receiverObj := True\<rparr>, ?s')"
    using ns assms(3) by (intro onEvent_focus) simp_all
  then have loop: "consumeEvents_loop l s = Some (OK, ?l1\<lparr>receiverObj := True\<rparr>, ?s')"
    using body by (simp add: consumeEvents_loop_return)
  have 1: "consumeCalls ?s' = consumeCalls s + 1"
    by (simp add: finishInputEvent_fields CallVoidMethod_def notify_batch_view)
  have 2: "filter isFocusCall (javaCalls ?s') =
      filter isFocusCall (javaCalls s) @ [OnFocusEvent hf tm]"
    by (simp add: finishInputEvent_frame CallVoidMethod_frame notify_frame isFocusCall_def)
  have 3: "filter isDispatchInputEvent (javaCalls ?s') = filter isDispatchInputEvent (javaCalls s)"
    by (simp add: finishInputEvent_frame CallVoidMethod_frame notify_frame
        isDispatchInputEvent_def)
  have 4: "sendCalls ?s' = sendCalls s + 1"
    by (simp add: finishInputEvent_fields CallVoidMethod_def notify_frame)
  have 5: "sendResults s (sendCalls s) = OK \<longrightarrow>
      sentSignals ?s' = sentSignals s @ [\<lparr>seq = c_seq r, handled = True\<rparr>]
      \<and> mFinishQueue ?s' = mFinishQueue s"
    by (simp add: finishInputEvent_fields CallVoidMethod_def notify_frame status_defs)
  have 6: "sendResults s (sendCalls s) = WOULD_BLOCK \<longrightarrow>
      sentSignals ?s' = sentSignals s
      \<and> mFinishQueue ?s' = mFinishQueue s @ [\<lparr>seq = c_seq r, handled = True\<rparr>]"
    by (simp add: finishInputEvent_fields CallVoidMethod_def notify_frame status_defs)
  show "\<exists>l' s'. consumeEvents_loop l s = Some (OK, l', s')
      \<and> consumeCalls s' = consumeCalls s + 1
      \<and> filter isFocusCall (javaCalls s') =
          filter isFocusCall (javaCalls s) @ [OnFocusEvent hf tm]
      \<and> filter isDispatchInputEvent (javaCalls s') =
          filter isDispatchInputEvent (javaCalls s)
      \<and> sendCalls s' = sendCalls s + 1
      \<and> (sendResults s (sendCalls s) = OK \<longrightarrow>
            sentSignals s' = sentSignals s @ [\<lparr>seq = c_seq r, handled = True\<rparr>]
            \<and> mFinishQueue s' = mFinishQueue s)
      \<and> (sendResults s (sendCalls s) = WOULD_BLOCK \<longrightarrow>
            sentSignals s' = sentSignals s
            \<and> mFinishQueue s' = mFinishQueue s @ [\<lparr>seq = c_seq r, handled = True\<rparr>])"
    using loop 1 2 3 4 5 6 by blast
next
  let ?s1 = "s\<lparr>consumeCalls := consumeCalls s + 1\<rparr>"
  let ?s2 = "notifyMotionEventInfo r ?s1"
  let ?l1 = "l\<lparr>receiverObj := True\<rparr>"
  let ?s' = "snd (sendFinishedSignal (c_seq r) False ?s2)"
  assume sk: "skipCallbacks l"
  have body: "consumeEvents_body l s = onEvent r ?l1 ?s2"
    using assms(1,2,4) by (simp add: body_unfold status_defs)
  have "onEvent r ?l1 ?s2 = Inr (?l1, ?s')"
    using sk by (intro onEvent_skipping) simp
  then have b: "consumeEvents_body l s = Inr (?l1, ?s')"
    using body by simp
  have "filter isFocusCall (javaCalls ?s') = filter isFocusCall (javaCalls s)"
    "filter isDispatchInputEvent (javaCalls ?s') = filter isDispatchInputEvent (javaCalls s)"
    by (simp_all add: sendFinishedSignal_snd notify_frame)
  then show "\<exists>s'. consumeEvents_body l s = Inr (l\<lparr>receiverObj := True\<rparr>, s')
      \<and> filter isFocusCall (javaCalls s') = filter isFocusCall (javaCalls s)
      \<and> filter isDispatchInputEvent (javaCalls s') =
          filter isDispatchInputEvent (javaCalls s)"
    using b by blast
qed


theorem focus_event_dispatch_witness:
  "\<exists>l' s'. consumeEvents_loop
        \<lparr>receiverObj = False, skipCallbacks = False, outConsumedBatch = None\<rparr> focusArrives
        = Some (OK, l', s')
      \<and> consumeCalls s' = 1
      \<and> filter isFocusCall (javaCalls s') = [OnFocusEvent True False]
      \<and> filter isDispatchInputEvent (javaCalls s') = []
      \<and> sendCalls s' = 1
      \<and> sentSignals s' = [\<lparr>seq = 9, handled = True\<rparr>]
      \<and> mFinishQueue s' = []"
  using focus_event_dispatch
    [where l = "\<lparr>receiverObj = False, skipCallbacks = False, outConsumedBatch = None\<rparr>"
       and s = focusArrives and r = "decoded 9 (FocusEvent True False)"
       and hf = True and tm = False]
  by (simp add: focusArrives_def initialize_def setFdEvents_def scenario_defs status_defs
        looper_defs)


section \<open>The queue and the registered interest\<close>

lemma queueInterestInv_cong:
  "mFinishQueue s' = mFinishQueue s \<Longrightarrow> mFdEvents s' = mFdEvents s \<Longrightarrow>
   looperCalls s' = looperCalls s \<Longrightarrow> queueInterestInv s' = queueInterestInv s"
  by (simp add: queueInterestInv_def)

lemma registeredInterest_setFdEvents:
  "mFdEvents s = registeredInterest (looperCalls s) \<Longrightarrow>
   registeredInterest (looperCalls (setFdEvents e s)) = e"
  by (simp add: setFdEvents_def registeredInterest_def Let_def)

lemma setFdEvents_mFinishQueue: "mFinishQueue (setFdEvents e s) = mFinishQueue s"
  by (simp add: setFdEvents_def Let_def)

lemma setFdEvents_mFdEvents: "mFdEvents (setFdEvents e s) = e"
  by (simp add: setFdEvents_def Let_def)

lemma initialize_inv:
  "mFdEvents s = registeredInterest (looperCalls s) \<Longrightarrow> mFinishQueue s = [] \<Longrightarrow>
   queueInterestInv (snd (initialize s))"
  by (simp add: initialize_def queueInterestInv_def registeredInterest_setFdEvents
      setFdEvents_mFinishQueue setFdEvents_mFdEvents looper_defs)

lemma dispose_inv:
  "mFdEvents s = registeredInterest (looperCalls s) \<Longrightarrow>
   queueInterestInv (dispose s) = (mFinishQueue s = [])"
  by (simp add: dispose_def queueInterestInv_def registeredInterest_setFdEvents
      setFdEvents_mFinishQueue setFdEvents_mFdEvents)

lemma finishInputEvent_inv:
  assumes "queueInterestInv s"
  shows "queueInterestInv (snd (finishInputEvent sq h s))"
proof -
  let ?st = "sendResults s (sendCalls s)"
  let ?s1 = "snd (sendFinishedSignal sq h s)"
  have s1: "mFinishQueue ?s1 = mFinishQueue s" "mFdEvents ?s1 = mFdEvents s"
    "looperCalls ?s1 = looperCalls s"
    by (simp_all add: sendFinishedSignal_snd)
  show ?thesis
  proof (cases "?st = WOULD_BLOCK")
    case False
    then have "snd (finishInputEvent sq h s) = ?s1"
      by (simp add: finishInputEvent_def case_prod_beta sendFinishedSignal_fst Let_def)
    then show ?thesis
      using assms s1 by (simp add: queueInterestInv_def)
  next
    case True
    let ?s2 = "?s1\<lparr>mFinishQueue := mFinishQueue ?s1 @ [\<lparr>seq = sq, handled = h\<rparr>]\<rparr>"
    show ?thesis
    proof (cases "mFinishQueue s = []")
      case True
      have "snd (finishInputEvent sq h s) =
          setFdEvents (ALOOPER_EVENT_INPUT OR ALOOPER_EVENT_OUTPUT) ?s2"
        using \<open>?st = WOULD_BLOCK\<close> True s1
        by (simp add: finishInputEvent_def case_prod_beta sendFinishedSignal_fst Let_def
            status_defs)
      moreover have "mFdEvents ?s2 = registeredInterest (looperCalls ?s2)"
        using assms s1 by (simp add: queueInterestInv_def)
      ultimately show ?thesis
        by (simp add: queueInterestInv_def registeredInterest_setFdEvents
            setFdEvents_mFinishQueue setFdEvents_mFdEvents looper_defs)
    next
      case False
      have "snd (finishInputEvent sq h s) = ?s2"
        using \<open>?st = WOULD_BLOCK\<close> False s1
        by (simp add: finishInputEvent_def case_prod_beta sendFinishedSignal_fst Let_def
            status_defs)
      then show ?thesis
        using assms s1 False by (simp add: queueInterestInv_def)
    qed
  qed
qed

lemma onWouldBlock_inv:
  "queueInterestInv (snd (snd (onWouldBlock l s))) = queueInterestInv s"
  by (rule queueInterestInv_cong)
     (simp_all add: onWouldBlock_def CallVoidMethod_def Let_def)

lemma notify_inv: "queueInterestInv (notifyMotionEventInfo r s) = queueInterestInv s"
  by (rule queueInterestInv_cong) (simp_all add: notify_frame)

lemma onEvent_inv:
  assumes "queueInterestInv s"
  shows "queueInterestInv (stateAfter (onEvent r l s))"
proof (cases "c_event r")
  case (FocusEvent hf tm)
  have "queueInterestInv (CallVoidMethod (OnFocusEvent hf tm) s)"
    using assms queueInterestInv_cong [of "CallVoidMethod (OnFocusEvent hf tm) s" s]
    by (simp add: CallVoidMethod_frame)
  then have f: "queueInterestInv
      (snd (finishInputEvent (c_seq r) True (CallVoidMethod (OnFocusEvent hf tm) s)))"
    by (rule finishInputEvent_inv)
  have k: "queueInterestInv (finishSkipped (c_seq r) l s)"
    using assms queueInterestInv_cong [of "finishSkipped (c_seq r) l s" s]
    by (simp add: finishSkipped_frame)
  show ?thesis
    using FocusEvent f k assms
    by (simp add: onEvent_def stateAfter_def Let_def case_prod_beta)
next
  case KeyEvent
  have "queueInterestInv (stateAfter (onEvent r l s)) = queueInterestInv s"
    using KeyEvent
    by (intro queueInterestInv_cong)
       (simp_all add: onEvent_def stateAfter_def Let_def case_prod_beta
          dispatchObj_frame finishSkipped_frame obtainEventObj_frame)
  then show ?thesis using assms by simp
next
  case (MotionEvent a)
  have "queueInterestInv (stateAfter (onEvent r l s)) = queueInterestInv s"
    using MotionEvent
    by (intro queueInterestInv_cong)
       (simp_all add: onEvent_def stateAfter_def Let_def case_prod_beta
          dispatchObj_frame finishSkipped_frame obtainEventObj_frame)
  then show ?thesis using assms by simp
next
  case (OtherEvent t)
  have "queueInterestInv (stateAfter (onEvent r l s)) = queueInterestInv s"
    using OtherEvent
    by (intro queueInterestInv_cong)
       (simp_all add: onEvent_def stateAfter_def Let_def case_prod_beta
          dispatchObj_frame finishSkipped_frame obtainEventObj_frame)
  then show ?thesis using assms by simp
qed

lemma body_inv:
  assumes "queueInterestInv s"
  shows "queueInterestInv (stateAfter (consumeEvents_body l s))"
proof (cases "receiverObj l \<or> referent s")
  case False
  then have "consumeEvents_body l s =
      Inl (DEAD_OBJECT, l, s\<lparr>consumeCalls := consumeCalls s + 1\<rparr>)"
    by (simp add: body_dead_referent)
  then show ?thesis
    using assms by (simp add: stateAfter_Inl queueInterestInv_def)
next
  case True
  let ?s2 = "notifyMotionEventInfo (consumeResults s (consumeCalls s))
               (s\<lparr>consumeCalls := consumeCalls s + 1\<rparr>)"
  have "queueInterestInv (s\<lparr>consumeCalls := consumeCalls s + 1\<rparr>)"
    using assms by (simp add: queueInterestInv_def)
  then have s2: "queueInterestInv ?s2"
    by (simp add: notify_inv)
  show ?thesis
    unfolding body_unfold [OF True]
    using s2 onEvent_inv [OF s2] by (simp add: stateAfter_Inl onWouldBlock_inv)
qed

lemma loop_inv_imp:
  assumes "consumeEvents_loop l s = Some res"
  shows "queueInterestInv s \<longrightarrow> queueInterestInv (snd (snd res))"
proof (rule consumeEvents_loop.raw_induct
    [where P = "\<lambda>l s res. queueInterestInv s \<longrightarrow> queueInterestInv (snd (snd res))"])
  show "consumeEvents_loop l s = Some res" by (rule assms)
next
  fix loop :: "locals \<Rightarrow> receiver \<Rightarrow> (status_t \<times> locals \<times> receiver) option"
    and l s res
  assume IH: "\<And>l s res. loop l s = Some res \<Longrightarrow>
      queueInterestInv s \<longrightarrow> queueInterestInv (snd (snd res))"
    and eq: "(case consumeEvents_body l s of Inl res \<Rightarrow> Some res
              | Inr (l', s') \<Rightarrow> loop l' s') = Some res"
  show "queueInterestInv s \<longrightarrow> queueInterestInv (snd (snd res))"
  proof
    assume inv: "queueInterestInv s"
    have after: "queueInterestInv (stateAfter (consumeEvents_body l s))"
      using inv by (rule body_inv)
    show "queueInterestInv (snd (snd res))"
    proof (cases "consumeEvents_body l s")
      case (Inl x)
      then have "res = x" using eq by simp
      then show ?thesis using after Inl by (simp add: stateAfter_Inl)
    next
      case (Inr y)
      obtain l' s' where y: "y = (l', s')" by (cases y)
      have "queueInterestInv s'"
        using after Inr y by (simp add: stateAfter_def)
      moreover have "loop l' s' = Some res"
        using eq Inr y by simp
      ultimately show ?thesis
        using IH by blast
    qed
  qed
qed

lemma loop_inv:
  "consumeEvents_loop l s = Some res \<Longrightarrow> queueInterestInv s \<Longrightarrow>
   queueInterestInv (snd (snd res))"
  using loop_inv_imp by blast

lemma consumeEvents_inv:
  assumes "consumeEvents cb ft w s = Some (st, ocb, s')" and "queueInterestInv s"
  shows "queueInterestInv s'"
proof -
  let ?s1 = "if cb then s\<lparr>mBatchedInputEventPending := False\<rparr> else s"
  let ?l = "\<lparr>receiverObj = False, skipCallbacks = False,
             outConsumedBatch = (if w then Some False else None)\<rparr>"
  have i: "queueInterestInv ?s1"
    using assms(2) by (simp add: queueInterestInv_def)
  obtain res where r: "consumeEvents_loop ?l ?s1 = Some res" and "s' = snd (snd res)"
    using assms(1) by (auto simp add: consumeEvents_def Let_def split: option.splits)
  then show ?thesis
    using loop_inv [OF r i] by simp
qed

lemma sendQueued_inv_frame:
  "mFdEvents (snd (sendQueued i s)) = mFdEvents s \<and>
   looperCalls (snd (sendQueued i s)) = looperCalls s \<and>
   (i < length (mFinishQueue s) \<longrightarrow>
      (fst (sendQueued i s) \<noteq> None \<longrightarrow> mFinishQueue (snd (sendQueued i s)) \<noteq> []))"
proof (induction i s rule: sendQueued.induct)
  case (1 i s)
  let ?f = "mFinishQueue s ! i"
  let ?s1 = "snd (sendFinishedSignal (seq ?f) (handled ?f) s)"
  let ?st = "fst (sendFinishedSignal (seq ?f) (handled ?f) s)"
  show ?case
  proof (cases "i < length (mFinishQueue s)")
    case False
    then show ?thesis by (subst (1 2 3 4) sendQueued.simps) simp
  next
    case True
    have s1: "mFinishQueue ?s1 = mFinishQueue s" "mFdEvents ?s1 = mFdEvents s"
      "looperCalls ?s1 = looperCalls s"
      by (simp_all add: sendFinishedSignal_snd)
    show ?thesis
    proof (cases "?st = 0")
      case z: True
      have eq: "sendQueued i s = sendQueued (i + 1) ?s1"
        using True z by (subst sendQueued.simps) (simp add: Let_def)
      have ih: "mFdEvents (snd (sendQueued (i + 1) ?s1)) = mFdEvents ?s1 \<and>
         looperCalls (snd (sendQueued (i + 1) ?s1)) = looperCalls ?s1 \<and>
         (i + 1 < length (mFinishQueue ?s1) \<longrightarrow>
            (fst (sendQueued (i + 1) ?s1) \<noteq> None \<longrightarrow>
               mFinishQueue (snd (sendQueued (i + 1) ?s1)) \<noteq> []))"
        using "1.IH" [OF True refl refl refl] z by simp
      have none: "\<not> i + 1 < length (mFinishQueue ?s1) \<Longrightarrow> fst (sendQueued (i + 1) ?s1) = None"
        by (subst sendQueued.simps) simp
      show ?thesis
        unfolding eq using ih s1 none by auto
    next
      case nz: False
      show ?thesis
        using True nz s1
        by (subst (1 2 3 4) sendQueued.simps)
           (simp add: Let_def raiseAndClearException_def jniThrowRuntimeException_def)
    qed
  qed
qed

lemma handleEvent_inv:
  assumes "handleEvent events s = Some (c, s')" and "queueInterestInv s"
  shows "queueInterestInv s'"
proof (cases "events AND (ALOOPER_EVENT_ERROR OR ALOOPER_EVENT_HANGUP) \<noteq> 0")
  case True
  then show ?thesis using assms by (simp add: handleEvent_def)
next
  case ne: False
  show ?thesis
  proof (cases "events AND ALOOPER_EVENT_INPUT \<noteq> 0")
    case True
    then obtain st ocb s1 where c: "consumeEvents False (- 1) False s = Some (st, ocb, s1)"
      and s': "s' = raiseAndClearException ''handleReceiveCallback'' s1"
      using assms(1) ne by (auto simp add: handleEvent_def split: option.splits)
    have "queueInterestInv s1"
      using consumeEvents_inv [OF c assms(2)] .
    moreover have "queueInterestInv s' = queueInterestInv s1"
      unfolding s' by (rule queueInterestInv_cong) (simp_all add: raiseAndClearException_def)
    ultimately show ?thesis by simp
  next
    case ni: False
    show ?thesis
    proof (cases "events AND ALOOPER_EVENT_OUTPUT \<noteq> 0")
      case False
      then show ?thesis using assms ne ni by (simp add: handleEvent_def)
    next
      case True
      let ?q = "sendQueued 0 s"
      have fr: "mFdEvents (snd ?q) = mFdEvents s" "looperCalls (snd ?q) = looperCalls s"
        "0 < length (mFinishQueue s) \<longrightarrow> fst ?q \<noteq> None \<longrightarrow> mFinishQueue (snd ?q) \<noteq> []"
        using sendQueued_inv_frame [of 0 s] by simp_all
      show ?thesis
      proof (cases "fst ?q")
        case None
        then have s': "s' = setFdEvents ALOOPER_EVENT_INPUT ((snd ?q)\<lparr>mFinishQueue := []\<rparr>)"
          using assms(1) ne ni True by (simp add: handleEvent_def case_prod_beta)
        have "mFdEvents ((snd ?q)\<lparr>mFinishQueue := []\<rparr>) =
            registeredInterest (looperCalls ((snd ?q)\<lparr>mFinishQueue := []\<rparr>))"
          using assms(2) fr by (simp add: queueInterestInv_def)
        then show ?thesis
          unfolding s'
          by (simp add: queueInterestInv_def registeredInterest_setFdEvents
              setFdEvents_mFinishQueue setFdEvents_mFdEvents looper_defs)
      next
        case (Some c')
        then have s': "s' = snd ?q"
          using assms(1) ne ni True by (simp add: handleEvent_def case_prod_beta)
        have "mFinishQueue s \<noteq> []"
        proof
          assume "mFinishQueue s = []"
          then have "fst ?q = None" by (subst sendQueued.simps) simp
          then show False using Some by simp
        qed
        then have "mFinishQueue (snd ?q) \<noteq> []" using fr(3) Some by simp
        then show ?thesis
          unfolding s' using assms(2) fr \<open>mFinishQueue s \<noteq> []\<close>
          by (simp add: queueInterestInv_def)
      qed
    qed
  qed
qed

lemma deliverReadiness_kept_inv:
  assumes "deliverReadiness events s = Some (c, s')" and "c \<noteq> 0" and "queueInterestInv s"
  shows "queueInterestInv s'"
proof -
  obtain s0 where h: "handleEvent events s = Some (c, s0)"
    and s': "s' = (if c = 0 then s0\<lparr>looperCalls := looperCalls s0 @ [RemoveFd]\<rparr> else s0)"
    using assms(1) by (auto simp add: deliverReadiness_def split: option.splits)
  have "queueInterestInv s0"
    using handleEvent_inv [OF h assms(3)] .
  then show ?thesis
    using s' assms(2) by simp
qed

lemma deliverReadiness_removed:
  assumes "deliverReadiness events s = Some (0, s')"
  shows "registeredInterest (looperCalls s') = 0"
  using assms
  by (auto simp add: deliverReadiness_def registeredInterest_def split: option.splits)

text \<open>
  Claim C6, as stated, fails at \<open>dispose\<close> and at a readiness callback that returns 0:
  both end the registration whatever the queue holds. After \<open>initialize\<close> and a
  \<open>finishInputEvent\<close> that was refused by the transport the invariant holds (one
  record queued, read and write interest registered). After \<open>dispose\<close> the record is
  still queued and nothing is registered; likewise after a hangup notification, for
  which \<open>handleEvent\<close> returns 0 and the looper removes the callback.
\<close>

theorem queue_invariant_broken_counterexample:
  "queueInterestInv oneQueued
   \<and> mFinishQueue (dispose oneQueued) = [\<lparr>seq = 5, handled = True\<rparr>]
   \<and> looperCalls (dispose oneQueued) = [AddFd 1, AddFd 3, RemoveFd]
   \<and> registeredInterest (looperCalls (dispose oneQueued)) AND ALOOPER_EVENT_OUTPUT = 0
   \<and> \<not> queueInterestInv (dispose oneQueued)
   \<and> (\<exists>t. deliverReadiness ALOOPER_EVENT_HANGUP oneQueued = Some (0, t)
        \<and> mFinishQueue t = [\<lparr>seq = 5, handled = True\<rparr>]
        \<and> looperCalls t = [AddFd 1, AddFd 3, RemoveFd]
        \<and> registeredInterest (looperCalls t) AND ALOOPER_EVENT_OUTPUT = 0
        \<and> \<not> queueInterestInv t)"
  by (simp add: queueInterestInv_def registeredInterest_def dispose_def setFdEvents_def
        deliverReadiness_def handleEvent_def oneQueued_simps looper_defs)

text \<open>
  Claim C6, amended. The queue is non-empty exactly when write-readiness interest is
  registered with the looper (and \<open>mFdEvents\<close> agrees with the registration): this
  holds after \<open>initialize\<close> on a receiver with an empty queue (in particular on a newly
  constructed one) and is preserved by \<open>finishInputEvent\<close>, by every \<open>consumeEvents\<close>
  call that returns and by every readiness callback that keeps the callback (returns 1).
  \<open>dispose\<close> keeps it only when the queue is empty, and a readiness callback that
  returns 0 leaves nothing registered.
\<close>

theorem queue_interest_invariant:
  "(mFdEvents s = registeredInterest (looperCalls s) \<and> mFinishQueue s = [] \<longrightarrow>
      queueInterestInv (snd (initialize s)))
   \<and> queueInterestInv (snd (initialize (NativeInputEventReceiver cs pb ss rf ts)))
   \<and> (queueInterestInv s \<longrightarrow> queueInterestInv (snd (finishInputEvent sq h s)))
   \<and> (queueInterestInv s \<and> consumeEvents cb ft w s = Some (st, ocb, s') \<longrightarrow>
        queueInterestInv s')
   \<and> (queueInterestInv s \<and> deliverReadiness events s = Some (c, s'') \<and> c \<noteq> 0 \<longrightarrow>
        queueInterestInv s'')
   \<and> (queueInterestInv s \<longrightarrow> queueInterestInv (dispose s) = (mFinishQueue s = []))
   \<and> (deliverReadiness events s = Some (0, s'') \<longrightarrow>
        registeredInterest (looperCalls s'') = 0)"
proof (intro conjI impI)
  assume "mFdEvents s = registeredInterest (looperCalls s) \<and> mFinishQueue s = []"
  then show "queueInterestInv (snd (initialize s))"
    by (simp add: initialize_inv)
next
  show "queueInterestInv (snd (initialize (NativeInputEventReceiver cs pb ss rf ts)))"
    by (rule initialize_inv)
       (simp_all add: NativeInputEventReceiver_def registeredInterest_def)
next
  assume "queueInterestInv s"
  then show "queueInterestInv (snd (finishInputEvent sq h s))"
    by (rule finishInputEvent_inv)
next
  assume "queueInterestInv s \<and> consumeEvents cb ft w s = Some (st, ocb, s')"
  then show "queueInterestInv s'"
    using consumeEvents_inv by blast
next
  assume "queueInterestInv s \<and> deliverReadiness events s = Some (c, s'') \<and> c \<noteq> 0"
  then show "queueInterestInv s''"
    using deliverReadiness_kept_inv by blast
next
  assume "queueInterestInv s"
  then have "mFdEvents s = registeredInterest (looperCalls s)"
    by (simp add: queueInterestInv_def)
  then show "queueInterestInv (dispose s) = (mFinishQueue s = [])"
    by (rule dispose_inv)
next
  assume "deliverReadiness events s = Some (0, s'')"
  then show "registeredInterest (looperCalls s'') = 0"
    by (rule deliverReadiness_removed)
qed

theorem queue_interest_invariant_witness:
  "queueInterestInv bufferFull \<and> queueInterestInv oneQueued
   \<and> (\<exists>t. deliverReadiness 2 oneQueued = Some (1, t) \<and> queueInterestInv t)
   \<and> (\<exists>t. deliverReadiness 8 oneQueued = Some (0, t)
        \<and> registeredInterest (looperCalls t) = 0)
   \<and> \<not> queueInterestInv (dispose oneQueued)
   \<and> queueInterestInv (dispose bufferFull)"
proof -
  have b: "queueInterestInv bufferFull"
    unfolding bufferFull_def
    by (rule queue_interest_invariant [THEN conjunct2, THEN conjunct1])
  have o: "queueInterestInv oneQueued"
    unfolding oneQueued_def
    by (rule queue_interest_invariant
          [THEN conjunct2, THEN conjunct2, THEN conjunct1, THEN mp, OF b])
  have "\<exists>t. deliverReadiness 2 oneQueued = Some (1, t)"
    by (simp add: deliverReadiness_def oneQueued_def bufferFull_def run_defs scenario_defs
        status_defs looper_defs)
  then obtain t where t: "deliverReadiness 2 oneQueued = Some (1, t)" by blast
  have one: "(1::int) \<noteq> 0" by simp
  have it: "queueInterestInv t"
    by (rule queue_interest_invariant
          [THEN conjunct2, THEN conjunct2, THEN conjunct2, THEN conjunct2, THEN conjunct1,
           THEN mp, OF conjI, OF o, OF conjI, OF t one])
  have "\<exists>u. deliverReadiness 8 oneQueued = Some (0, u)"
    by (simp add: deliverReadiness_def handleEvent_def looper_defs)
  then obtain u where u: "deliverReadiness 8 oneQueued = Some (0, u)" by blast
  have iu: "registeredInterest (looperCalls u) = 0"
    by (rule queue_interest_invariant
          [THEN conjunct2, THEN conjunct2, THEN conjunct2, THEN conjunct2, THEN conjunct2,
           THEN conjunct2, THEN mp, OF u])
  have d: "queueInterestInv (dispose oneQueued) = (mFinishQueue oneQueued = [])"
    by (rule queue_interest_invariant
          [THEN conjunct2, THEN conjunct2, THEN conjunct2, THEN conjunct2, THEN conjunct2,
           THEN conjunct1, THEN mp, OF o])
  have d': "queueInterestInv (dispose bufferFull) = (mFinishQueue bufferFull = [])"
    by (rule queue_interest_invariant
          [THEN conjunct2, THEN conjunct2, THEN conjunct2, THEN conjunct2, THEN conjunct2,
           THEN conjunct1, THEN mp, OF b])
  have "\<not> queueInterestInv (dispose oneQueued)"
    unfolding d by (simp add: oneQueued_simps)
  moreover have "queueInterestInv (dispose bufferFull)"
    unfolding d' by (simp add: bufferFull_simps)
  ultimately show ?thesis using b o t it u iu by blast
qed

end
